theory Spec2Isabelle
  imports Complex_Main
begin

section \<open>Numbers\<close>

text \<open>
  A JavaScript number is a binary64 floating-point value: \<open>NaN\<close>, the two
  infinities, the negative zero, or a finite value \<open>Fin x\<close>, where \<open>Fin 0\<close> is the
  positive zero. \<open>Fin x\<close> is written for every real \<open>x\<close>; the numbers of JavaScript
  are those whose \<open>x\<close> binary64 represents, and what is proved for every \<open>Fin x\<close>
  holds for them.
\<close>

datatype number = NaN | NegInf | NegZero | Fin real | PosInf

text \<open>
  Rounding to the nearest binary64 value, ties to the even significand. The
  significand has 53 bits, so the values near \<open>x\<close> are the multiples of
  \<open>2 ^ q\<close> where \<open>q\<close> is the binary exponent of \<open>x\<close> less 52, and not below the
  exponent -1074 of the subnormal values. A result of magnitude \<open>2 ^ 1024\<close> is
  beyond the largest finite value and becomes an infinity; a result that rounds to
  zero keeps the sign of \<open>x\<close>.
\<close>

definition pow2 :: "int \<Rightarrow> real" where
  "pow2 q = (if 0 \<le> q then 2 ^ nat q else 1 / 2 ^ nat (- q))"

definition binary_exponent :: "real \<Rightarrow> int" where
  "binary_exponent x = \<lfloor>log 2 \<bar>x\<bar>\<rfloor>"

definition round_half_even :: "real \<Rightarrow> int" where
  "round_half_even x =
     (let f = \<lfloor>x\<rfloor>; d = x - of_int f
      in if d < 1 / 2 then f else if 1 / 2 < d then f + 1
         else if even f then f else f + 1)"

definition binary64 :: "real \<Rightarrow> number" where
  "binary64 x =
     (if x = 0 then Fin 0
      else
        let q = max (binary_exponent x - 52) (- 1074);
            y = of_int (round_half_even (x / pow2 q)) * pow2 q
        in if 2 ^ 1024 \<le> \<bar>y\<bar> then (if 0 < x then PosInf else NegInf)
           else if y = 0 then (if 0 < x then Fin 0 else NegZero)
           else Fin y)"

text \<open>The classes and the sign of a number, and its value when it is finite.\<close>

definition is_zero :: "number \<Rightarrow> bool" where
  "is_zero a = (a = NegZero \<or> a = Fin 0)"

definition is_inf :: "number \<Rightarrow> bool" where
  "is_inf a = (a = NegInf \<or> a = PosInf)"

fun negative :: "number \<Rightarrow> bool" where
  "negative NaN = False"
| "negative NegInf = True"
| "negative NegZero = True"
| "negative (Fin x) = (x < 0)"
| "negative PosInf = False"

fun finite_value :: "number \<Rightarrow> real" where
  "finite_value (Fin x) = x"
| "finite_value a = 0"

definition signed_zero :: "bool \<Rightarrow> number" where
  "signed_zero neg = (if neg then NegZero else Fin 0)"

definition signed_inf :: "bool \<Rightarrow> number" where
  "signed_inf neg = (if neg then NegInf else PosInf)"

text \<open>
  \<open>a + b\<close> on numbers. Opposite infinities give \<open>NaN\<close>; the sum of two negative
  zeros is the negative zero and every other zero sum is the positive zero; a
  finite sum is rounded.
\<close>

fun number_plus :: "number \<Rightarrow> number \<Rightarrow> number" where
  "number_plus NaN b = NaN"
| "number_plus a NaN = NaN"
| "number_plus PosInf NegInf = NaN"
| "number_plus NegInf PosInf = NaN"
| "number_plus PosInf b = PosInf"
| "number_plus a PosInf = PosInf"
| "number_plus NegInf b = NegInf"
| "number_plus a NegInf = NegInf"
| "number_plus NegZero b = b"
| "number_plus a NegZero = a"
| "number_plus (Fin x) (Fin y) = binary64 (x + y)"

text \<open>
  \<open>a / b\<close> on numbers. Infinity by infinity and zero by zero give \<open>NaN\<close>; an
  infinity divided, or a division by a zero, gives an infinity; a zero divided, or
  a division by an infinity, gives a zero; the sign is the product of the signs.
  A quotient of finite non-zero values is rounded.
\<close>

definition number_div :: "number \<Rightarrow> number \<Rightarrow> number" where
  "number_div a b =
     (if a = NaN \<or> b = NaN then NaN
      else if is_inf a \<and> is_inf b then NaN
      else if is_zero a \<and> is_zero b then NaN
      else if is_inf a \<or> is_zero b then signed_inf (negative a \<noteq> negative b)
      else if is_zero a \<or> is_inf b then signed_zero (negative a \<noteq> negative b)
      else binary64 (finite_value a / finite_value b))"

text \<open>
  \<open>a < b\<close> on numbers: false when an operand is \<open>NaN\<close>; the two zeros are equal.
\<close>

fun number_lt :: "number \<Rightarrow> number \<Rightarrow> bool" where
  "number_lt NaN b = False"
| "number_lt a NaN = False"
| "number_lt a NegInf = False"
| "number_lt NegInf b = True"
| "number_lt PosInf b = False"
| "number_lt a PosInf = True"
| "number_lt a b = (finite_value a < finite_value b)"

section \<open>Values\<close>

text \<open>
  The JavaScript values that flow through columns, scalar functions and aggregates.
  \<open>Undefined\<close> is what a read of a missing array element or of a missing property
  gives.
\<close>

datatype val = Undefined | Null | Bool bool | Num number | Str string | Arr "val list"

text \<open>JavaScript truthiness (\<open>ToBoolean\<close>): what \<open>if (v)\<close>, \<open>!v\<close>, \<open>&&\<close> and \<open>||\<close> test.\<close>

fun truthy :: "val \<Rightarrow> bool" where
  "truthy Undefined = False"
| "truthy Null = False"
| "truthy (Bool b) = b"
| "truthy (Num n) = (n \<noteq> NaN \<and> \<not> is_zero n)"
| "truthy (Str s) = (s \<noteq> [])"
| "truthy (Arr xs) = True"

text \<open>\<open>typeof v\<close>.\<close>

fun js_typeof :: "val \<Rightarrow> string" where
  "js_typeof Undefined = ''undefined''"
| "js_typeof Null = ''object''"
| "js_typeof (Bool b) = ''boolean''"
| "js_typeof (Num n) = ''number''"
| "js_typeof (Str s) = ''string''"
| "js_typeof (Arr xs) = ''object''"

text \<open>\<open>a && b\<close> and \<open>a || b\<close> return one of their operands.\<close>

definition js_and :: "val \<Rightarrow> val \<Rightarrow> val" where
  "js_and a b = (if truthy a then b else a)"

definition js_or :: "val \<Rightarrow> val \<Rightarrow> val" where
  "js_or a b = (if truthy a then a else b)"

text \<open>\<open>v == null\<close> (loose equality) holds of \<open>null\<close> and \<open>undefined\<close> only.\<close>

definition loosely_null :: "val \<Rightarrow> bool" where
  "loosely_null v = (v = Null \<or> v = Undefined)"

text \<open>
  The arithmetic and relational operators, on the operand types the library applies
  them to: numbers (a boolean added to a number counts as 1 or 0), and strings for
  \<open>+\<close>. The other coercions of JavaScript are not modelled: there the functions are
  unspecified.
\<close>

fun js_plus :: "val \<Rightarrow> val \<Rightarrow> val" where
  "js_plus (Num a) (Num b) = Num (number_plus a b)"
| "js_plus (Num a) (Bool b) = Num (number_plus a (Fin (if b then 1 else 0)))"
| "js_plus (Str a) (Str b) = Str (a @ b)"
| "js_plus a b = undefined"

fun js_div :: "val \<Rightarrow> val \<Rightarrow> val" where
  "js_div (Num a) (Num b) = Num (number_div a b)"
| "js_div a b = undefined"

fun js_lt :: "val \<Rightarrow> val \<Rightarrow> bool" where
  "js_lt (Num a) (Num b) = number_lt a b"
| "js_lt a b = undefined"

fun js_gt :: "val \<Rightarrow> val \<Rightarrow> bool" where
  "js_gt (Num a) (Num b) = number_lt b a"
| "js_gt a b = undefined"

text \<open>
  Arrays. \<open>xs[i]\<close> is \<open>undefined\<close> beyond the end; \<open>xs[i] = v\<close> beyond the end
  extends the array, and the elements in between read as \<open>undefined\<close>.
\<close>

definition js_array_get :: "val list \<Rightarrow> nat \<Rightarrow> val" where
  "js_array_get xs i = (if i < length xs then xs ! i else Undefined)"

definition js_array_set :: "val list \<Rightarrow> nat \<Rightarrow> val \<Rightarrow> val list" where
  "js_array_set xs i v =
     (if i < length xs then xs[i := v]
      else xs @ replicate (i - length xs) Undefined @ [v])"

text \<open>
  What a function call or a method raises: the \<open>ReferenceError\<close> of \<open>expr.js\<close> with
  its message, a \<open>TypeError\<close> of the engine (its message differs between engines),
  or any other value thrown.
\<close>

datatype error = ReferenceError string | TypeError | Thrown val

section \<open>Columns and namespaces\<close>

text \<open>
  Modelled from the spec: the \<open>Column\<close> class (\<open>column.js\<close>), which \<open>expr.js\<close> only
  imports. A column is an ordered sequence of values with a declared element type,
  which may be left unspecified; \<open>new Column(type, data)\<close> stores both.
\<close>

record Column =
  type :: "string option"
  data :: "val list"

definition new_Column :: "string option \<Rightarrow> val list \<Rightarrow> Column" where
  "new_Column t d = \<lparr>type = t, data = d\<rparr>"

text \<open>
  A namespace is a plain object mapping names to columns, kept as the list of its
  own properties. Of two entries with one name the first is the property's value
  (\<open>map_of\<close>), and \<open>Object.keys\<close> lists every own name once.
\<close>

type_synonym 'c namespace = "(string \<times> 'c) list"

definition Object_keys :: "'c namespace \<Rightarrow> string list" where
  "Object_keys namespace = remdups (map fst namespace)"

text \<open>
  \<open>namespace[name]\<close> looks a name up in the object and then in its prototype. The
  prototype of a plain object is \<open>Object.prototype\<close>, whose properties are the names
  below; each is a function, or for \<open>__proto__\<close> the prototype itself. So the
  lookup gives an own column, or an inherited object that is no column and has no
  property \<open>data\<close>, or \<open>undefined\<close>.
\<close>

definition Object_prototype_names :: "string list" where
  "Object_prototype_names =
     [''constructor'', ''__defineGetter__'', ''__defineSetter__'', ''hasOwnProperty'',
      ''__lookupGetter__'', ''__lookupSetter__'', ''isPrototypeOf'',
      ''propertyIsEnumerable'', ''toString'', ''valueOf'', ''__proto__'',
      ''toLocaleString'']"

datatype 'c js_object = Col 'c | Inherited string

definition js_property :: "'c namespace \<Rightarrow> string \<Rightarrow> 'c js_object option" where
  "js_property namespace name =
     (case map_of namespace name of
        Some column \<Rightarrow> Some (Col column)
      | None \<Rightarrow>
          if name \<in> set Object_prototype_names then Some (Inherited name) else None)"

section \<open>Expression trees (expr.js)\<close>

text \<open>
  The three node classes. The function of a \<open>FuncExpr\<close> takes the values of its
  arguments to a value or raises. A selection is a list of row indices, which are
  natural numbers.
\<close>

datatype expr =
  FuncExpr "val list \<Rightarrow> error + val" "expr list"
| RefExpr string
| ConstExpr val

text \<open>
  \<open>Object.keys(namespace).reduce((count, name) =>
     Math.max(count, namespace[name].data.length), 0)\<close>,
  the line that \<open>FuncExpr.evaluate\<close> and \<open>ConstExpr.evaluate\<close> both have.
  Every \<open>name\<close> is an own key, so \<open>namespace[name]\<close> is its column.
\<close>

definition row_count :: "Column namespace \<Rightarrow> nat" where
  "row_count namespace =
     foldl (\<lambda>count name. max count (length (data (the (map_of namespace name)))))
       0 (Object_keys namespace)"

text \<open>
  \<open>RefExpr.evaluate\<close>. What the lookup finds is an object and so truthy; only
  \<open>undefined\<close> raises. Nothing in it depends on what a column is.
\<close>

definition RefExpr_evaluate ::
    "string \<Rightarrow> 'c namespace \<Rightarrow> nat list \<Rightarrow> error + 'c js_object" where
  "RefExpr_evaluate reference namespace selection =
     (case js_property namespace reference of
        None \<Rightarrow> Inl (ReferenceError (''Unknown column: '' @ reference))
      | Some result \<Rightarrow> Inr result)"

text \<open>
  \<open>xs.map(x => ...)\<close> with a callback that may raise: the elements are taken from
  left to right and the first exception ends the call.
\<close>

fun map_throwing :: "(error + 'a) list \<Rightarrow> error + 'a list" where
  "map_throwing [] = Inr []"
| "map_throwing (r # rs) =
     (case r of
        Inl e \<Rightarrow> Inl e
      | Inr x \<Rightarrow> (case map_throwing rs of Inl e \<Rightarrow> Inl e | Inr xs \<Rightarrow> Inr (x # xs)))"

text \<open>
  \<open>column.data[selid]\<close>: on a column the array read; on an inherited object
  \<open>column.data\<close> is \<open>undefined\<close> and indexing it raises a \<open>TypeError\<close>.
\<close>

fun read_input :: "Column js_object \<Rightarrow> nat \<Rightarrow> error + val" where
  "read_input (Col column) selid = Inr (js_array_get (data column) selid)"
| "read_input (Inherited name) selid = Inl TypeError"

text \<open>
  The loop of \<open>FuncExpr.evaluate\<close>, \<open>selection.reduce(function(data, selid) ...)\<close>:
  for each index in turn the inputs are read, the function is applied and its
  value is stored at the index; an exception ends the loop.
\<close>

fun FuncExpr_reduce ::
    "(val list \<Rightarrow> error + val) \<Rightarrow> Column js_object list \<Rightarrow> val list \<Rightarrow> nat list
      \<Rightarrow> error + val list" where
  "FuncExpr_reduce func inputs acc [] = Inr acc"
| "FuncExpr_reduce func inputs acc (selid # selection) =
     (case map_throwing (map (\<lambda>column. read_input column selid) inputs) of
        Inl e \<Rightarrow> Inl e
      | Inr tuple \<Rightarrow>
          (case func tuple of
             Inl e \<Rightarrow> Inl e
           | Inr v \<Rightarrow> FuncExpr_reduce func inputs (js_array_set acc selid v) selection))"

fun evaluate :: "expr \<Rightarrow> Column namespace \<Rightarrow> nat list \<Rightarrow> error + Column js_object" where
  "evaluate (FuncExpr func args) namespace selection =
     (case map_throwing (map (\<lambda>arg. evaluate arg namespace selection) args) of
        Inl e \<Rightarrow> Inl e
      | Inr inputs \<Rightarrow>
          (let count = row_count namespace
           in case FuncExpr_reduce func inputs (replicate count Null) selection of
                Inl e \<Rightarrow> Inl e
              | Inr result \<Rightarrow> Inr (Col (new_Column None result))))"
| "evaluate (RefExpr reference) namespace selection =
     RefExpr_evaluate reference namespace selection"
| "evaluate (ConstExpr constant) namespace selection =
     (let count = row_count namespace
      in Inr (Col (new_Column (Some (js_typeof constant)) (replicate count constant))))"

section \<open>The scalar library (expr.js)\<close>

text \<open>
  \<open>Expr.and\<close>, \<open>Expr.or\<close> and \<open>Expr.not\<close>. \<open>args.includes(null)\<close> finds \<open>null\<close>
  only, never \<open>undefined\<close>; \<open>b == null\<close> is the loose comparison.
\<close>

definition Expr_and :: "val list \<Rightarrow> val" where
  "Expr_and args =
     (if Null \<in> set args then Null
      else foldl (\<lambda>result arg. js_and result arg) (Bool True) args)"

definition Expr_or :: "val list \<Rightarrow> val" where
  "Expr_or args =
     (if Null \<in> set args then Null
      else foldl (\<lambda>result arg. js_or result arg) (Bool False) args)"

definition Expr_not :: "val \<Rightarrow> val" where
  "Expr_not b = (if loosely_null b then Null else Bool (\<not> truthy b))"

section \<open>Aggregates (aggr.js)\<close>

text \<open>
  The state of an aggregate is a JavaScript object with the properties \<open>count\<close>,
  \<open>sum\<close> and \<open>value\<close>, of which each class sets its own; a property that was never
  set reads as \<open>undefined\<close>. The fields \<open>sum'\<close> and \<open>value'\<close> are the properties
  \<open>sum\<close> and \<open>value\<close>. \<open>update\<close> changes the state in place: here it returns the
  state after the call, and \<open>finalize\<close> returns its result together with the state
  it leaves.
\<close>

record state =
  count :: val
  sum' :: val
  value' :: val

subsection \<open>Aggr\<close>

definition Aggr_initialize :: "state" where
  "Aggr_initialize = \<lparr>count = Undefined, sum' = Undefined, value' = Undefined\<rparr>"

definition Aggr_update :: "state \<Rightarrow> val \<Rightarrow> state" where
  "Aggr_update state val = state"

definition Aggr_finalize :: "state \<Rightarrow> val \<times> state" where
  "Aggr_finalize state = (Null, state)"

subsection \<open>CountStar and Count\<close>

definition CountStar_initialize :: "state" where
  "CountStar_initialize = Aggr_initialize\<lparr>count := Num (Fin 0)\<rparr>"

definition CountStar_update :: "state \<Rightarrow> state" where
  "CountStar_update state = state\<lparr>count := js_plus (count state) (Num (Fin 1))\<rparr>"

definition CountStar_finalize :: "state \<Rightarrow> val \<times> state" where
  "CountStar_finalize state = (count state, state)"

definition Count_initialize :: "state" where
  "Count_initialize = Aggr_initialize\<lparr>count := Num (Fin 0)\<rparr>"

definition Count_update :: "state \<Rightarrow> val \<Rightarrow> state" where
  "Count_update state val = state\<lparr>count := js_plus (count state) (Bool (val \<noteq> Null))\<rparr>"

definition Count_finalize :: "state \<Rightarrow> val \<times> state" where
  "Count_finalize state = (count state, state)"

subsection \<open>Sum and Avg\<close>

definition Sum_initialize :: "state" where
  "Sum_initialize = Aggr_initialize\<lparr>sum' := Null\<rparr>"

definition Sum_update :: "state \<Rightarrow> val \<Rightarrow> state" where
  "Sum_update state val =
     (if val \<noteq> Null then
        (if loosely_null (sum' state) then state\<lparr>sum' := val\<rparr>
         else state\<lparr>sum' := js_plus (sum' state) val\<rparr>)
      else state)"

definition Sum_finalize :: "state \<Rightarrow> val \<times> state" where
  "Sum_finalize state = (sum' state, state)"

definition Avg_initialize :: "state" where
  "Avg_initialize = Sum_initialize\<lparr>count := Num (Fin 0)\<rparr>"

definition Avg_update :: "state \<Rightarrow> val \<Rightarrow> state" where
  "Avg_update state val =
     (let state = Sum_update state val
      in state\<lparr>count := js_plus (count state) (Bool (val \<noteq> Null))\<rparr>)"

definition Avg_finalize :: "state \<Rightarrow> val \<times> state" where
  "Avg_finalize state =
     (if truthy (count state) then
        (case Sum_finalize state of (summed, state) \<Rightarrow> (js_div summed (count state), state))
      else (Null, state))"

subsection \<open>ValueAggr and its subclasses\<close>

definition ValueAggr_initialize :: "state" where
  "ValueAggr_initialize = Aggr_initialize\<lparr>value' := Null\<rparr>"

definition ValueAggr_update :: "(val \<Rightarrow> val \<Rightarrow> val) \<Rightarrow> state \<Rightarrow> val \<Rightarrow> state" where
  "ValueAggr_update selector state val =
     (let state = Aggr_update state val
      in if val \<noteq> Null then
           (if value' state \<noteq> Null then state\<lparr>value' := selector (value' state) val\<rparr>
            else state\<lparr>value' := val\<rparr>)
         else state)"

definition ValueAggr_finalize :: "state \<Rightarrow> val \<times> state" where
  "ValueAggr_finalize state = (value' state, state)"

definition Min_selector :: "val \<Rightarrow> val \<Rightarrow> val" where
  "Min_selector a b = (if js_lt a b then a else b)"

definition Max_selector :: "val \<Rightarrow> val \<Rightarrow> val" where
  "Max_selector a b = (if js_gt a b then a else b)"

definition First_selector :: "val \<Rightarrow> val \<Rightarrow> val" where
  "First_selector a b = a"

definition Last_selector :: "val \<Rightarrow> val \<Rightarrow> val" where
  "Last_selector a b = b"

definition Min_update :: "state \<Rightarrow> val \<Rightarrow> state" where
  "Min_update = ValueAggr_update Min_selector"

definition Max_update :: "state \<Rightarrow> val \<Rightarrow> state" where
  "Max_update = ValueAggr_update Max_selector"

definition First_update :: "state \<Rightarrow> val \<Rightarrow> state" where
  "First_update = ValueAggr_update First_selector"

definition Last_update :: "state \<Rightarrow> val \<Rightarrow> state" where
  "Last_update = ValueAggr_update Last_selector"

subsection \<open>StringAgg\<close>

text \<open>
  The constructor reads the separator from its second argument, an expression node:
  \<open>arg2 = args[1] || {constant: ','}\<close> and \<open>sep = arg2.constant || ','\<close>. An
  expression node is an object, so \<open>args[1]\<close> is falsy only when it is missing; only a
  \<open>ConstExpr\<close> has the property \<open>constant\<close>. The object \<open>{constant: ','}\<close> is
  read through that property alone and stands here as \<open>ConstExpr (Str '','')\<close>.
\<close>

fun constant_of :: "expr \<Rightarrow> val" where
  "constant_of (ConstExpr constant) = constant"
| "constant_of (RefExpr reference) = Undefined"
| "constant_of (FuncExpr func args) = Undefined"

definition StringAgg_sep :: "expr list \<Rightarrow> val" where
  "StringAgg_sep args =
     (let arg2 = (if 1 < length args then args ! 1 else ConstExpr (Str '',''));
          sep = js_or (constant_of arg2) (Str '','')
      in sep)"

definition StringAgg_selector :: "val \<Rightarrow> val \<Rightarrow> val \<Rightarrow> val" where
  "StringAgg_selector sep a b = js_plus (js_plus a sep) b"

definition StringAgg_update :: "expr list \<Rightarrow> state \<Rightarrow> val \<Rightarrow> state" where
  "StringAgg_update args = ValueAggr_update (StringAgg_selector (StringAgg_sep args))"

subsection \<open>ArrayAgg\<close>

fun js_push :: "val \<Rightarrow> val \<Rightarrow> val" where
  "js_push (Arr xs) v = Arr (xs @ [v])"
| "js_push a v = undefined"

definition ArrayAgg_initialize :: "state" where
  "ArrayAgg_initialize = Aggr_initialize\<lparr>value' := Null\<rparr>"

definition ArrayAgg_update :: "state \<Rightarrow> val \<Rightarrow> state" where
  "ArrayAgg_update state val =
     (let state = (if loosely_null (value' state) then state\<lparr>value' := Arr []\<rparr> else state)
      in state\<lparr>value' := js_push (value' state) val\<rparr>)"

definition ArrayAgg_finalize :: "state \<Rightarrow> val \<times> state" where
  "ArrayAgg_finalize state = (value' state, state)"

section \<open>Notions of the specification\<close>

text \<open>
  The effective row count of a namespace in the specification's words: the maximum
  length over all its columns, and 0 for a namespace with no column.
\<close>

definition max_column_length :: "Column namespace \<Rightarrow> nat" where
  "max_column_length namespace =
     Max (insert 0 ((\<lambda>column. length (data column)) ` ran (map_of namespace)))"

text \<open>
  A boolean-or-null, number-or-null or string-or-null argument as a value:
  \<open>or_null Bool\<close>, \<open>or_null Num\<close>, \<open>or_null Str\<close>. The non-null elements of a
  sequence, in order.
\<close>

definition or_null :: "('a \<Rightarrow> val) \<Rightarrow> 'a option \<Rightarrow> val" where
  "or_null emb v = (case v of None \<Rightarrow> Null | Some x \<Rightarrow> emb x)"

fun non_null :: "'a option list \<Rightarrow> 'a list" where
  "non_null [] = []"
| "non_null (None # vs) = non_null vs"
| "non_null (Some x # vs) = x # non_null vs"

text \<open>Strings joined by a separator.\<close>

fun join :: "string \<Rightarrow> string list \<Rightarrow> string" where
  "join sep [] = []"
| "join sep [x] = x"
| "join sep (x # y # ys) = x @ sep @ join sep (y # ys)"

text \<open>
  \<open>finalize\<close> leaves the state as it found it, and a second call on the state it
  left returns the same result.
\<close>

definition finalize_leaves_state :: "(state \<Rightarrow> val \<times> state) \<Rightarrow> state \<Rightarrow> bool" where
  "finalize_leaves_state finalize s =
     (case finalize s of (r1, s1) \<Rightarrow>
        s1 = s \<and> (case finalize s1 of (r2, s2) \<Rightarrow> r2 = r1 \<and> s2 = s))"

text \<open>The nodes of an expression tree.\<close>

fun subexprs :: "expr \<Rightarrow> expr list" where
  "subexprs (FuncExpr func args) = FuncExpr func args # concat (map subexprs args)"
| "subexprs (RefExpr reference) = [RefExpr reference]"
| "subexprs (ConstExpr constant) = [ConstExpr constant]"

text \<open>
  The reads of argument columns that an evaluation performs are in bounds: at every
  function node of the tree whose arguments evaluate, \<open>column.data[selid]\<close> has
  \<open>selid\<close> below the length of \<open>column.data\<close>, for every argument column and every
  index of the selection. An argument that is an inherited object has no \<open>data\<close>
  to read.
\<close>

fun reads_in_bounds :: "expr \<Rightarrow> Column namespace \<Rightarrow> nat list \<Rightarrow> bool" where
  "reads_in_bounds (FuncExpr func args) namespace selection =
     (list_all (\<lambda>arg. reads_in_bounds arg namespace selection) args \<and>
      (case map_throwing (map (\<lambda>arg. evaluate arg namespace selection) args) of
         Inl e \<Rightarrow> True
       | Inr inputs \<Rightarrow>
           list_all
             (\<lambda>input. case input of
                Col column \<Rightarrow> list_all (\<lambda>selid. selid < length (data column)) selection
              | Inherited name \<Rightarrow> True)
             inputs))"
| "reads_in_bounds (RefExpr reference) namespace selection = True"
| "reads_in_bounds (ConstExpr constant) namespace selection = True"

text \<open>
  Two namespaces for the examples: \<open>ns0\<close> has columns of lengths 3 and 1, \<open>ns1\<close>
  has two columns of length 2. A function that raises whatever its arguments are.
\<close>

definition ns0 :: "Column namespace" where
  "ns0 = [(''a'', new_Column None [Num (Fin 1), Null, Num (Fin 3)]),
          (''b'', new_Column None [Str ''x''])]"

definition ns1 :: "Column namespace" where
  "ns1 = [(''p'', new_Column None [Bool True, Bool False]),
          (''q'', new_Column None [Bool True, Null])]"

definition raising :: "val list \<Rightarrow> error + val" where
  "raising args = Inl TypeError"

section \<open>The effective row count\<close>

lemma foldl_max_eq_Max:
  "foldl (\<lambda>count x. max count (g x)) a xs = Max (insert (a::nat) (g ` set xs))"
proof (induction xs arbitrary: a)
  case Nil
  show ?case by simp
next
  case (Cons x xs)
  have "Max (insert (max a (g x)) (g ` set xs)) = Max (insert a (insert (g x) (g ` set xs)))"
    by (cases "set xs = {}") (simp_all add: max.assoc)
  with Cons show ?case by simp
qed

lemma set_Object_keys: "set (Object_keys namespace) = dom (map_of namespace)"
  by (simp add: Object_keys_def dom_map_of_conv_image_fst)

lemma ran_as_image: "ran m = (\<lambda>k. the (m k)) ` dom m"
  by (force simp: ran_def dom_def image_iff)

text \<open>Every name that \<open>Object.keys\<close> lists has its column in the namespace.\<close>

lemma Object_keys_lookup:
  "name \<in> set (Object_keys namespace) \<Longrightarrow> \<exists>column. map_of namespace name = Some column"
  by (auto simp add: set_Object_keys)

text \<open>The count that both \<open>evaluate\<close> methods compute is the specification's.\<close>

lemma row_count_is_max: "row_count namespace = max_column_length namespace"
  unfolding row_count_def max_column_length_def foldl_max_eq_Max set_Object_keys ran_as_image
  by (simp add: image_image)

lemma row_count_ns0: "row_count ns0 = 3"
  by (simp add: ns0_def row_count_def Object_keys_def new_Column_def)

lemma row_count_ns1: "row_count ns1 = 2"
  by (simp add: ns1_def row_count_def Object_keys_def new_Column_def)

lemma max_column_length_ns0: "max_column_length ns0 = 3"
  using row_count_is_max [of ns0] row_count_ns0 by simp

lemma max_column_length_ns1: "max_column_length ns1 = 2"
  using row_count_is_max [of ns1] row_count_ns1 by simp

section \<open>Constants\<close>

text \<open>
  C5. For every namespace \<open>N\<close>, selection \<open>S\<close> and constant \<open>c\<close>, evaluating
  \<open>ConstExpr c\<close> returns a column whose length is the maximum column length of \<open>N\<close>
  and whose every entry is \<open>c\<close>; any other selection \<open>S'\<close> gives the same column.
\<close>

theorem ConstExpr_evaluate_fills:
  "\<exists>col. evaluate (ConstExpr c) N S = Inr (Col col)
      \<and> length (data col) = max_column_length N
      \<and> (\<forall>i < length (data col). data col ! i = c)
      \<and> evaluate (ConstExpr c) N S' = Inr (Col col)"
  by (simp add: new_Column_def row_count_is_max)

theorem ConstExpr_evaluate_fills_witness:
  "\<exists>col. evaluate (ConstExpr (Num (Fin 7))) ns0 [1] = Inr (Col col)
      \<and> max_column_length ns0 = 3
      \<and> data col = [Num (Fin 7), Num (Fin 7), Num (Fin 7)]
      \<and> evaluate (ConstExpr (Num (Fin 7))) ns0 [] = Inr (Col col)"
proof -
  from ConstExpr_evaluate_fills [of "Num (Fin 7)" ns0 "[1]" "[]"]
  obtain col where c: "evaluate (ConstExpr (Num (Fin 7))) ns0 [1] = Inr (Col col)"
    and "evaluate (ConstExpr (Num (Fin 7))) ns0 [] = Inr (Col col)"
    by blast
  moreover from c have "data col = [Num (Fin 7), Num (Fin 7), Num (Fin 7)]"
    by (auto simp add: row_count_ns0 new_Column_def numeral_3_eq_3)
  ultimately show ?thesis using max_column_length_ns0 by blast
qed

section \<open>References\<close>

text \<open>
  A name that is an own key gives its column, as it is stored, whatever the entries
  of the namespace are. A name that is neither an own key nor a name of
  \<open>Object.prototype\<close> raises the error that carries it, and only such a name
  raises.
\<close>

lemma RefExpr_evaluate_own:
  "map_of N x = Some c \<Longrightarrow> RefExpr_evaluate x N S = Inr (Col c)"
  by (simp add: RefExpr_evaluate_def js_property_def)

lemma RefExpr_evaluate_raises_iff:
  "isl (RefExpr_evaluate x N S) \<longleftrightarrow>
     x \<notin> set (Object_keys N) \<and> x \<notin> set Object_prototype_names"
  by (auto simp add: RefExpr_evaluate_def js_property_def set_Object_keys
      split: option.splits)

lemma RefExpr_evaluate_unknown:
  "x \<notin> set (Object_keys N) \<Longrightarrow> x \<notin> set Object_prototype_names \<Longrightarrow>
     RefExpr_evaluate x N S = Inl (ReferenceError (''Unknown column: '' @ x))"
  by (auto simp add: RefExpr_evaluate_def js_property_def set_Object_keys
      split: option.splits)

text \<open>
  C2. The claim is that \<open>RefExpr.evaluate\<close> raises the unknown-column error exactly
  when the name is not a key of the namespace. \<open>toString\<close> is not a key of the
  empty namespace, but \<open>namespace[this.reference]\<close> finds the function that every
  object inherits under that name, the test \<open>!result\<close> fails, and the function is
  returned as if it were a column.
\<close>

theorem RefExpr_evaluate_inherited_name:
  "evaluate (RefExpr ''toString'') [] [] = Inr (Inherited ''toString'')
   \<and> ''toString'' \<notin> set (Object_keys ([] :: Column namespace))"
  by (simp add: RefExpr_evaluate_def js_property_def Object_prototype_names_def
      Object_keys_def)

section \<open>Function calls\<close>

lemma js_array_get_set:
  "js_array_get (js_array_set xs j v) i = (if i = j then v else js_array_get xs i)"
  by (auto simp add: js_array_get_def js_array_set_def nth_append)

lemma length_js_array_set: "j < length xs \<Longrightarrow> length (js_array_set xs j v) = length xs"
  by (simp add: js_array_set_def)

text \<open>
  Storing a value at each index of a selection. Whatever the selection, an index in
  it reads as the value written for it, and any other index as it read before.
\<close>

lemma foldl_set_get:
  "js_array_get (foldl (\<lambda>acc selid. js_array_set acc selid (g selid)) acc S) i =
     (if i \<in> set S then g i else js_array_get acc i)"
  by (induction S arbitrary: acc) (auto simp add: js_array_get_set)

lemma foldl_set_length:
  "\<forall>i\<in>set S. i < length acc \<Longrightarrow>
     length (foldl (\<lambda>acc selid. js_array_set acc selid (g selid)) acc S) = length acc"
  by (induction S arbitrary: acc) (simp_all add: length_js_array_set)

lemma map_throwing_Inr: "map_throwing (map (\<lambda>x. Inr (h x)) xs) = Inr (map h xs)"
  by (induction xs) simp_all

lemma map_throwing_Inr_only: "map_throwing rs = Inr ys \<Longrightarrow> rs = map Inr ys"
proof (induction rs arbitrary: ys)
  case Nil
  then show ?case by auto
next
  case (Cons r rs)
  then show ?case by (auto split: sum.splits)
qed

text \<open>
  The loop on argument columns, with a function that raises at no selected index:
  it stores the function's value at each index in turn.
\<close>

lemma read_input_columns:
  "map_throwing (map (\<lambda>column. read_input column i) (map Col inputs)) =
     Inr (map (\<lambda>column. js_array_get (data column) i) inputs)"
  by (induction inputs) simp_all

lemma FuncExpr_reduce_columns:
  assumes "\<forall>i\<in>set S. \<not> isl (f (map (\<lambda>column. js_array_get (data column) i) inputs))"
  shows "FuncExpr_reduce f (map Col inputs) acc S =
     Inr (foldl (\<lambda>acc selid. js_array_set acc selid
                  (projr (f (map (\<lambda>column. js_array_get (data column) selid) inputs))))
            acc S)"
  using assms
proof (induction S arbitrary: acc)
  case Nil
  show ?case by simp
next
  case (Cons i S)
  from Cons.prems obtain v
    where v: "f (map (\<lambda>column. js_array_get (data column) i) inputs) = Inr v"
    by (cases "f (map (\<lambda>column. js_array_get (data column) i) inputs)") auto
  from Cons.prems have "\<forall>i\<in>set S. \<not> isl (f (map (\<lambda>column. js_array_get (data column) i) inputs))"
    by simp
  from Cons.IH [OF this] show ?case
    unfolding FuncExpr_reduce.simps read_input_columns by (simp add: v)
qed

text \<open>A loop that ends without an exception leaves the length as the selection allows.\<close>

lemma FuncExpr_reduce_length:
  "FuncExpr_reduce f inputs acc S = Inr result \<Longrightarrow> \<forall>i\<in>set S. i < length acc \<Longrightarrow>
     length result = length acc"
proof (induction S arbitrary: acc)
  case Nil
  then show ?case by simp
next
  case (Cons i S)
  from Cons.prems(1) obtain v
    where r: "FuncExpr_reduce f inputs (js_array_set acc i v) S = Inr result"
    by (auto split: sum.splits)
  from Cons.prems(2) have "\<forall>j\<in>set S. j < length (js_array_set acc i v)"
    by (simp add: length_js_array_set)
  with r have "length result = length (js_array_set acc i v)"
    by (rule Cons.IH)
  with Cons.prems(2) show ?case by (simp add: length_js_array_set)
qed

text \<open>
  What makes the call raise: an argument that raises, an argument that is an
  inherited object when an index is selected, and the function raising at the first
  selected index.
\<close>

lemma FuncExpr_evaluate_argument_raises:
  "map_throwing (map (\<lambda>arg. evaluate arg N S) args) = Inl e \<Longrightarrow>
     evaluate (FuncExpr f args) N S = Inl e"
  by simp

lemma FuncExpr_evaluate_function_raises:
  assumes "map (\<lambda>arg. evaluate arg N (i # S)) args = map (\<lambda>column. Inr (Col column)) inputs"
    and "f (map (\<lambda>column. js_array_get (data column) i) inputs) = Inl e"
  shows "evaluate (FuncExpr f args) N (i # S) = Inl e"
proof -
  have "map_throwing (map (\<lambda>arg. evaluate arg N (i # S)) args) = Inr (map Col inputs)"
    unfolding assms(1) by (rule map_throwing_Inr)
  then show ?thesis
    unfolding evaluate.simps FuncExpr_reduce.simps Let_def
    by (simp only: sum.case read_input_columns assms(2))
qed

lemma FuncExpr_evaluate_columns:
  assumes "map (\<lambda>arg. evaluate arg N S) args = map (\<lambda>column. Inr (Col column)) inputs"
    and "\<forall>i\<in>set S. \<not> isl (f (map (\<lambda>column. js_array_get (data column) i) inputs))"
  shows "evaluate (FuncExpr f args) N S =
     Inr (Col (new_Column None
       (foldl (\<lambda>acc selid. js_array_set acc selid
                 (projr (f (map (\<lambda>column. js_array_get (data column) selid) inputs))))
          (replicate (row_count N) Null) S)))"
proof -
  have "map_throwing (map (\<lambda>arg. evaluate arg N S) args) = Inr (map Col inputs)"
    unfolding assms(1) by (rule map_throwing_Inr)
  then show ?thesis
    unfolding evaluate.simps Let_def
    by (simp only: sum.case FuncExpr_reduce_columns [OF assms(2)])
qed

text \<open>
  C1, as amended. For every namespace \<open>N\<close>, every selection \<open>S\<close> (its indices all
  below the effective row count of \<open>N\<close>, as the data model has it), every function
  \<open>f\<close> and all argument expressions such that each argument evaluates against
  \<open>(N, S)\<close> to a column, the columns \<open>inputs\<close>, and \<open>f\<close> raises on the values of no
  selected index: evaluating \<open>FuncExpr f args\<close> returns a column whose length is
  the effective row count of \<open>N\<close>, whose entry at every index \<open>i\<close> of \<open>S\<close> is the
  value of \<open>f\<close> on the values at \<open>i\<close> of the argument columns (\<open>undefined\<close> where a
  column is shorter), and whose entry at every other index is null.
\<close>

theorem FuncExpr_evaluate_selected:
  assumes args: "map (\<lambda>arg. evaluate arg N S) args = map (\<lambda>column. Inr (Col column)) inputs"
    and sel: "\<forall>i\<in>set S. i < max_column_length N"
    and f: "\<forall>i\<in>set S. \<not> isl (f (map (\<lambda>column. js_array_get (data column) i) inputs))"
  shows "\<exists>col. evaluate (FuncExpr f args) N S = Inr (Col col)
      \<and> length (data col) = max_column_length N
      \<and> (\<forall>i\<in>set S.
            f (map (\<lambda>column. js_array_get (data column) i) inputs) = Inr (data col ! i))
      \<and> (\<forall>i<length (data col). i \<notin> set S \<longrightarrow> data col ! i = Null)"
proof -
  let ?g = "\<lambda>selid. projr (f (map (\<lambda>column. js_array_get (data column) selid) inputs))"
  let ?out = "foldl (\<lambda>acc selid. js_array_set acc selid (?g selid))
                (replicate (row_count N) Null) S"
  have len: "length ?out = max_column_length N"
    using sel foldl_set_length [of S "replicate (row_count N) Null" ?g]
    by (simp add: row_count_is_max)
  have get: "\<And>i. js_array_get ?out i =
      (if i \<in> set S then ?g i else js_array_get (replicate (row_count N) Null) i)"
    by (rule foldl_set_get)
  have "\<forall>i\<in>set S. f (map (\<lambda>column. js_array_get (data column) i) inputs) = Inr (?out ! i)"
  proof
    fix i assume i: "i \<in> set S"
    with sel len have "i < length ?out" by simp
    then have "js_array_get ?out i = ?out ! i" by (simp add: js_array_get_def)
    with get [of i] i have "?out ! i = ?g i" by simp
    moreover from f i have "\<not> isl (f (map (\<lambda>column. js_array_get (data column) i) inputs))"
      by blast
    ultimately show "f (map (\<lambda>column. js_array_get (data column) i) inputs) = Inr (?out ! i)"
      by (cases "f (map (\<lambda>column. js_array_get (data column) i) inputs)") simp_all
  qed
  moreover have "\<forall>i<length ?out. i \<notin> set S \<longrightarrow> ?out ! i = Null"
  proof (intro allI impI)
    fix i assume i: "i < length ?out" "i \<notin> set S"
    then have "js_array_get ?out i = ?out ! i" by (simp add: js_array_get_def)
    moreover from i len have "js_array_get (replicate (row_count N) Null) i = Null"
      by (simp add: js_array_get_def row_count_is_max)
    ultimately show "?out ! i = Null" using get [of i] i by simp
  qed
  moreover have "evaluate (FuncExpr f args) N S = Inr (Col (new_Column None ?out))"
    by (rule FuncExpr_evaluate_columns [OF args f])
  moreover have "data (new_Column None ?out) = ?out"
    by (simp add: new_Column_def)
  ultimately show ?thesis
    using len by (intro exI [of _ "new_Column None ?out"]) simp
qed

lemma evaluate_ns1_refs:
  "RefExpr_evaluate ''p'' ns1 S = Inr (Col (new_Column None [Bool True, Bool False]))"
  "RefExpr_evaluate ''q'' ns1 S = Inr (Col (new_Column None [Bool True, Null]))"
  by (simp_all add: RefExpr_evaluate_def js_property_def ns1_def)

theorem FuncExpr_evaluate_selected_witness:
  "\<exists>col. evaluate (FuncExpr (Inr \<circ> Expr_and) [RefExpr ''p'', RefExpr ''q'']) ns1 [0] = Inr (Col col)
     \<and> length (data col) = 2 \<and> data col ! 0 = Bool True \<and> data col ! 1 = Null"
proof -
  let ?f = "(Inr \<circ> Expr_and) :: val list \<Rightarrow> error + val"
  let ?inputs = "[new_Column None [Bool True, Bool False], new_Column None [Bool True, Null]]"
  have args: "map (\<lambda>arg. evaluate arg ns1 [0]) [RefExpr ''p'', RefExpr ''q''] =
      map (\<lambda>column. Inr (Col column)) ?inputs"
    by (simp add: evaluate_ns1_refs)
  have sel: "\<forall>i\<in>set [0]. i < max_column_length ns1"
    by (simp add: max_column_length_ns1)
  have f: "\<forall>i\<in>set [0]. \<not> isl (?f (map (\<lambda>column. js_array_get (data column) i) ?inputs))"
    by simp
  from FuncExpr_evaluate_selected [OF args sel f]
  obtain col where *:
    "evaluate (FuncExpr ?f [RefExpr ''p'', RefExpr ''q'']) ns1 [0] = Inr (Col col)
     \<and> length (data col) = max_column_length ns1
     \<and> (\<forall>i\<in>set [0]. ?f (map (\<lambda>column. js_array_get (data column) i) ?inputs) =
            Inr (data col ! i))
     \<and> (\<forall>i<length (data col). i \<notin> set [0] \<longrightarrow> data col ! i = Null)" ..
  from * have ev: "evaluate (FuncExpr ?f [RefExpr ''p'', RefExpr ''q'']) ns1 [0] = Inr (Col col)"
    by (rule conjunct1)
  from * have len: "length (data col) = max_column_length ns1"
    by (elim conjE)
  from * have at: "\<forall>i\<in>set [0]. ?f (map (\<lambda>column. js_array_get (data column) i) ?inputs) =
      Inr (data col ! i)"
    by (elim conjE)
  from * have off: "\<forall>i<length (data col). i \<notin> set [0] \<longrightarrow> data col ! i = Null"
    by (elim conjE)
  from at have "data col ! 0 = Bool True"
    by (simp add: new_Column_def js_array_get_def Expr_and_def js_and_def)
  moreover from off len have "data col ! 1 = Null"
    by (simp add: max_column_length_ns1)
  ultimately show ?thesis
    using ev len by (simp add: max_column_length_ns1)
qed

text \<open>
  C1 as it is stated fails where the call raises and returns no column: when an
  argument names a column missing from the namespace, when an argument names what
  the namespace inherits (the read of \<open>column.data[selid]\<close> then raises), and when
  the function raises.
\<close>

theorem FuncExpr_evaluate_counterexample:
  "evaluate (FuncExpr (Inr \<circ> Expr_and) [RefExpr ''z'']) ns0 [0] =
       Inl (ReferenceError ''Unknown column: z'')
   \<and> evaluate (FuncExpr (Inr \<circ> Expr_and) [RefExpr ''toString'']) ns0 [0] = Inl TypeError
   \<and> evaluate (FuncExpr raising [RefExpr ''a'']) ns0 [0] = Inl TypeError"
proof (intro conjI)
  show "evaluate (FuncExpr (Inr \<circ> Expr_and) [RefExpr ''z'']) ns0 [0] =
      Inl (ReferenceError ''Unknown column: z'')"
    by (simp add: RefExpr_evaluate_def js_property_def Object_prototype_names_def ns0_def)
  show "evaluate (FuncExpr (Inr \<circ> Expr_and) [RefExpr ''toString'']) ns0 [0] = Inl TypeError"
    by (simp add: RefExpr_evaluate_def js_property_def Object_prototype_names_def ns0_def)
  show "evaluate (FuncExpr raising [RefExpr ''a'']) ns0 [0] = Inl TypeError"
    by (simp add: RefExpr_evaluate_def js_property_def ns0_def raising_def)
qed

text \<open>
  An index of the selection at or beyond the effective row count, which the data
  model excludes, extends the output array: on \<open>ns0\<close>, of row count 3, the selection
  \<open>[5]\<close> gives a column of length 6.
\<close>

lemma FuncExpr_evaluate_beyond_row_count:
  "evaluate (FuncExpr (Inr \<circ> Expr_and) []) ns0 [5] =
     Inr (Col (new_Column None [Null, Null, Null, Undefined, Undefined, Bool True]))"
  by (simp add: row_count_ns0 js_array_set_def Expr_and_def numeral_3_eq_3
      eval_nat_numeral)

section \<open>Aligned namespaces\<close>

lemma aligned_evaluate_length:
  assumes aligned: "\<forall>name column. map_of N name = Some column \<longrightarrow>
      length (data column) = max_column_length N"
    and sel: "\<forall>i\<in>set S. i < max_column_length N"
    and ev: "evaluate e N S = Inr (Col col)"
  shows "length (data col) = max_column_length N"
proof (cases e)
  case (FuncExpr f args)
  with ev obtain inputs result
    where r: "FuncExpr_reduce f inputs (replicate (row_count N) Null) S = Inr result"
      and col: "col = new_Column None result"
    by (auto split: sum.splits)
  from sel have "\<forall>i\<in>set S. i < length (replicate (row_count N) Null)"
    by (simp add: row_count_is_max)
  with r have "length result = length (replicate (row_count N) Null)"
    by (rule FuncExpr_reduce_length)
  with col show ?thesis by (simp add: new_Column_def row_count_is_max)
next
  case (RefExpr x)
  with ev have "map_of N x = Some col"
    by (simp add: RefExpr_evaluate_def js_property_def split: option.splits if_splits)
  with aligned show ?thesis by blast
next
  case (ConstExpr c)
  with ev show ?thesis
    by (auto simp add: new_Column_def row_count_is_max)
qed

lemma aligned_reads_in_bounds:
  assumes aligned: "\<forall>name column. map_of N name = Some column \<longrightarrow>
      length (data column) = max_column_length N"
    and sel: "\<forall>i\<in>set S. i < max_column_length N"
  shows "reads_in_bounds e N S"
proof (induction e)
  case (FuncExpr f args)
  have "list_all (\<lambda>arg. reads_in_bounds arg N S) args"
    using FuncExpr by (simp add: list_all_iff)
  moreover have "list_all
      (\<lambda>input. case input of
         Col column \<Rightarrow> list_all (\<lambda>selid. selid < length (data column)) S
       | Inherited name \<Rightarrow> True) inputs"
    if "map_throwing (map (\<lambda>arg. evaluate arg N S) args) = Inr inputs" for inputs
  proof -
    from that have eq: "map (\<lambda>arg. evaluate arg N S) args = map Inr inputs"
      by (rule map_throwing_Inr_only)
    have "length (data column) = max_column_length N" if "Col column \<in> set inputs" for column
    proof -
      from that have "Inr (Col column) \<in> set (map (\<lambda>arg. evaluate arg N S) args)"
        unfolding eq by simp
      then obtain arg where "evaluate arg N S = Inr (Col column)" by auto
      then show ?thesis by (rule aligned_evaluate_length [OF aligned sel])
    qed
    with sel show ?thesis by (auto simp add: list_all_iff split: js_object.splits)
  qed
  ultimately show ?case by (simp split: sum.splits)
next
  case (RefExpr x)
  show ?case by simp
next
  case (ConstExpr c)
  show ?case by simp
qed

text \<open>
  C10. For every namespace \<open>N\<close> all of whose columns have the effective row count as
  their length, and every selection \<open>S\<close> whose indices are all below it, evaluating
  any expression tree \<open>e\<close> reads argument columns in bounds only, and every column
  that a node of the tree produces has that length again.
\<close>

theorem aligned_evaluate_in_bounds:
  assumes aligned: "\<forall>name column. map_of N name = Some column \<longrightarrow>
      length (data column) = max_column_length N"
    and sel: "\<forall>i\<in>set S. i < max_column_length N"
  shows "reads_in_bounds e N S
    \<and> (\<forall>node\<in>set (subexprs e). \<forall>col. evaluate node N S = Inr (Col col) \<longrightarrow>
          length (data col) = max_column_length N)"
  using aligned_reads_in_bounds [OF aligned sel] aligned_evaluate_length [OF aligned sel]
  by blast

theorem aligned_evaluate_in_bounds_witness:
  "reads_in_bounds
     (FuncExpr (Inr \<circ> Expr_or)
        [FuncExpr (Inr \<circ> Expr_and) [RefExpr ''p'', RefExpr ''q''], ConstExpr (Bool False)])
     ns1 [1, 0, 1]
   \<and> evaluate
     (FuncExpr (Inr \<circ> Expr_or)
        [FuncExpr (Inr \<circ> Expr_and) [RefExpr ''p'', RefExpr ''q''], ConstExpr (Bool False)])
     ns1 [1, 0, 1] = Inr (Col (new_Column None [Bool True, Null]))
   \<and> max_column_length ns1 = 2"
proof -
  let ?e = "FuncExpr (Inr \<circ> Expr_or)
    [FuncExpr (Inr \<circ> Expr_and) [RefExpr ''p'', RefExpr ''q''], ConstExpr (Bool False)]"
  have aligned: "\<forall>name column. map_of ns1 name = Some column \<longrightarrow>
      length (data column) = max_column_length ns1"
    unfolding max_column_length_ns1
    by (auto simp add: ns1_def new_Column_def split: if_splits)
  have sel: "\<forall>i\<in>set [1, 0, 1]. i < max_column_length ns1"
    by (simp add: max_column_length_ns1)
  have "evaluate ?e ns1 [1, 0, 1] = Inr (Col (new_Column None [Bool True, Null]))"
    by (simp add: evaluate_ns1_refs row_count_ns1 new_Column_def js_array_get_def
        js_array_set_def Expr_and_def Expr_or_def js_and_def js_or_def numeral_2_eq_2)
  with aligned_evaluate_in_bounds [OF aligned sel, of ?e] show ?thesis
    by (simp add: max_column_length_ns1)
qed

section \<open>Three-valued logic\<close>

lemma or_null_simps: "or_null emb None = Null" "or_null emb (Some x) = emb x"
  by (simp_all add: or_null_def)

lemma foldl_js_and_bools:
  "foldl js_and (Bool r) (map (\<lambda>b. Bool (f b)) xs) = Bool (foldl (\<and>) r (map f xs))"
  by (induction xs arbitrary: r) (simp_all add: js_and_def)

lemma foldl_js_or_bools:
  "foldl js_or (Bool r) (map (\<lambda>b. Bool (f b)) xs) = Bool (foldl (\<or>) r (map f xs))"
  by (induction xs arbitrary: r) (simp_all add: js_or_def)

lemma or_null_Bool_Null: "(Null \<in> set (map (or_null Bool) bs)) = (None \<in> set bs)"
proof (induction bs)
  case Nil
  show ?case by simp
next
  case (Cons a bs)
  then show ?case by (cases a) (auto simp: or_null_simps)
qed

lemma or_null_Bool_the:
  "None \<notin> set bs \<Longrightarrow> map (or_null Bool) bs = map (\<lambda>b. Bool (the b)) bs"
proof (induction bs)
  case Nil
  show ?case by simp
next
  case (Cons a bs)
  then show ?case by (cases a) (simp_all add: or_null_simps)
qed

text \<open>
  C8. For every list \<open>bs\<close> of boolean-or-null arguments, \<open>Expr.and\<close> returns null
  if an argument is null and otherwise the left fold of conjunction from \<open>true\<close>;
  \<open>Expr.or\<close> returns null if an argument is null and otherwise the left fold of
  disjunction from \<open>false\<close>; \<open>Expr.not\<close> returns null on null and the negation
  otherwise.
\<close>

theorem Expr_and_or_not_three_valued:
  "Expr_and (map (or_null Bool) bs) =
     (if None \<in> set bs then Null else Bool (foldl (\<and>) True (map the bs)))
   \<and> Expr_or (map (or_null Bool) bs) =
     (if None \<in> set bs then Null else Bool (foldl (\<or>) False (map the bs)))
   \<and> Expr_not (or_null Bool b) = (case b of None \<Rightarrow> Null | Some x \<Rightarrow> Bool (\<not> x))"
proof (intro conjI)
  show "Expr_and (map (or_null Bool) bs) =
     (if None \<in> set bs then Null else Bool (foldl (\<and>) True (map the bs)))"
    unfolding Expr_and_def or_null_Bool_Null
    by (simp add: or_null_Bool_the foldl_js_and_bools)
  show "Expr_or (map (or_null Bool) bs) =
     (if None \<in> set bs then Null else Bool (foldl (\<or>) False (map the bs)))"
    unfolding Expr_or_def or_null_Bool_Null
    by (simp add: or_null_Bool_the foldl_js_or_bools)
  show "Expr_not (or_null Bool b) = (case b of None \<Rightarrow> Null | Some x \<Rightarrow> Bool (\<not> x))"
    by (simp add: Expr_not_def or_null_def loosely_null_def split: option.splits)
qed

theorem Expr_and_or_not_three_valued_witness:
  "Expr_and [Bool True, Null, Bool False] = Null
   \<and> Expr_and [Bool True, Bool True, Bool False] = Bool False
   \<and> Expr_or [Bool False, Null] = Null
   \<and> Expr_or [Bool False, Bool True] = Bool True
   \<and> Expr_and [] = Bool True \<and> Expr_or [] = Bool False
   \<and> Expr_not Null = Null \<and> Expr_not (Bool True) = Bool False"
  using Expr_and_or_not_three_valued [of "[Some True, None, Some False]" None]
    Expr_and_or_not_three_valued [of "[Some True, Some True, Some False]" "Some True"]
    Expr_and_or_not_three_valued [of "[Some False, None]" None]
    Expr_and_or_not_three_valued [of "[Some False, Some True]" None]
    Expr_and_or_not_three_valued [of "[]" None]
  by (simp add: or_null_simps)

section \<open>Rounding\<close>

lemma pow2_pos: "0 < pow2 q"
  by (simp add: pow2_def)

lemma pow2_powr: "pow2 q = 2 powr (of_int q)"
proof (cases "0 \<le> q")
  case True
  then show ?thesis
    by (simp add: pow2_def powr_realpow [symmetric])
next
  case False
  then have "(2::real) powr (of_int q) = inverse (2 powr (of_int (- q)))"
    by (simp add: powr_minus)
  also have "\<dots> = 1 / 2 ^ nat (- q)"
    using False by (simp add: powr_realpow [symmetric] inverse_eq_divide)
  finally show ?thesis using False by (simp add: pow2_def)
qed

lemma pow2_less_iff: "pow2 a < pow2 b \<longleftrightarrow> a < b"
  by (simp add: pow2_powr)

lemma round_half_even_of_int: "round_half_even (of_int n) = n"
  by (simp add: round_half_even_def)

text \<open>The binary exponent \<open>e\<close> of \<open>x\<close> is where \<open>2 ^ e \<le> |x| < 2 ^ (e + 1)\<close>.\<close>

lemma binary_exponent_eq:
  assumes "pow2 e \<le> \<bar>x\<bar>" and "\<bar>x\<bar> < pow2 (e + 1)"
  shows "binary_exponent x = e"
proof -
  from assms(1) pow2_pos [of e] have "0 < \<bar>x\<bar>" by linarith
  then show ?thesis
    using assms unfolding binary_exponent_def by (simp add: floor_log_eq_powr_iff pow2_powr)
qed

lemma binary_exponent_bounds:
  assumes "x \<noteq> 0"
  shows "pow2 (binary_exponent x) \<le> \<bar>x\<bar>" "\<bar>x\<bar> < pow2 (binary_exponent x + 1)"
proof -
  from assms have "0 < \<bar>x\<bar>" by simp
  then have "pow2 (binary_exponent x) \<le> \<bar>x\<bar> \<and> \<bar>x\<bar> < pow2 (binary_exponent x + 1)"
    using floor_log_eq_powr_iff [of "\<bar>x\<bar>" 2 "\<lfloor>log 2 \<bar>x\<bar>\<rfloor>"]
    unfolding binary_exponent_def by (simp add: pow2_powr)
  then show "pow2 (binary_exponent x) \<le> \<bar>x\<bar>" "\<bar>x\<bar> < pow2 (binary_exponent x + 1)"
    by simp_all
qed

text \<open>A value that is a whole multiple of its quantum is not changed by the rounding.\<close>

lemma binary64_exact:
  assumes "x \<noteq> 0" and "\<bar>x\<bar> < 2 ^ 1024"
    and "x / pow2 (max (binary_exponent x - 52) (- 1074)) = of_int n"
  shows "binary64 x = Fin x"
proof -
  let ?q = "max (binary_exponent x - 52) (- 1074)"
  have "x = of_int n * pow2 ?q"
    using assms(3) pow2_pos [of ?q] by (simp add: field_simps)
  then have "of_int (round_half_even (x / pow2 ?q)) * pow2 ?q = x"
    unfolding assms(3) round_half_even_of_int by simp
  then show ?thesis
    using assms(1,2) by (simp add: binary64_def Let_def)
qed

text \<open>Every integer of magnitude up to \<open>2 ^ 53\<close> is a binary64 value.\<close>

lemma binary64_of_int:
  assumes "\<bar>m\<bar> \<le> 2 ^ 53"
  shows "binary64 (of_int m) = Fin (of_int m)"
proof (cases "m = 0")
  case True
  then show ?thesis by (simp add: binary64_def)
next
  case False
  define x :: real where "x = of_int m"
  define e where "e = binary_exponent x"
  from False have x0: "x \<noteq> 0" by (simp add: x_def)
  from binary_exponent_bounds [OF x0]
  have lo: "pow2 e \<le> \<bar>x\<bar>" and hi: "\<bar>x\<bar> < pow2 (e + 1)" by (simp_all add: e_def)
  have "1 \<le> \<bar>m\<bar>" using False by simp
  then have one: "1 \<le> \<bar>x\<bar>"
    unfolding x_def by (simp flip: of_int_abs)
  have "\<bar>x\<bar> = of_int \<bar>m\<bar>" by (simp add: x_def)
  also have "\<dots> \<le> of_int (2 ^ 53)" using assms by (rule of_int_le_iff [THEN iffD2])
  finally have x53: "\<bar>x\<bar> \<le> pow2 53" by (simp add: pow2_def)
  have p0: "pow2 0 = 1" by (simp add: pow2_def)
  from one hi have "pow2 0 < pow2 (e + 1)" unfolding p0 by linarith
  then have e0: "0 \<le> e" unfolding pow2_less_iff by simp
  have "pow2 53 < pow2 54" unfolding pow2_less_iff by simp
  with lo x53 have "pow2 e < pow2 54" by linarith
  then have e53: "e \<le> 53" unfolding pow2_less_iff by simp
  have "pow2 53 < 2 ^ 1024" by (simp add: pow2_def)
  with x53 have big: "\<bar>x\<bar> < 2 ^ 1024" by linarith
  have q: "max (e - 52) (- 1074) = e - 52" using e0 by simp
  have "\<exists>n. x / pow2 (e - 52) = of_int n"
  proof (cases "e \<le> 52")
    case True
    then have "pow2 (e - 52) = 1 / 2 ^ nat (52 - e)"
      by (cases "e = 52") (simp_all add: pow2_def)
    then have "x / pow2 (e - 52) = of_int (m * 2 ^ nat (52 - e))" by (simp add: x_def)
    then show ?thesis by blast
  next
    case False
    with e53 have e: "e = 53" by simp
    have "pow2 53 = of_int (2 ^ 53)" by (simp add: pow2_def)
    with lo x53 e have "\<bar>x\<bar> = of_int (2 ^ 53)" by simp
    then have "of_int \<bar>m\<bar> = (of_int (2 ^ 53) :: real)" by (simp add: x_def)
    then have "\<bar>m\<bar> = 2 ^ 53" by (rule of_int_eq_iff [THEN iffD1])
    then have "m = 9007199254740992 \<or> m = - 9007199254740992" by simp linarith
    then have "x / pow2 (e - 52) = of_int (m div 2)"
      unfolding e x_def by (auto simp add: pow2_def)
    then show ?thesis by blast
  qed
  then obtain n where "x / pow2 (max (binary_exponent x - 52) (- 1074)) = of_int n"
    unfolding q [unfolded e_def] e_def by blast
  from binary64_exact [OF x0 big this] show ?thesis by (simp add: x_def)
qed

lemma binary64_of_nat: "n \<le> 2 ^ 53 \<Longrightarrow> binary64 (real n) = Fin (real n)"
  using binary64_of_int [of "int n"] by simp

text \<open>\<open>10 ^ 16 + 1\<close> lies between two binary64 values and rounds to the even one.\<close>

lemma binary64_rounds: "binary64 10000000000000001 = Fin 10000000000000000"
proof -
  have e: "binary_exponent 10000000000000001 = 53"
    by (rule binary_exponent_eq) (simp_all add: pow2_def)
  have r: "round_half_even (10000000000000001 / 2) = 5000000000000000"
    by (simp add: round_half_even_def Let_def)
  show ?thesis
    by (simp add: binary64_def e r pow2_def)
qed

text \<open>
  Counting: below \<open>2 ^ 53\<close> the increments of the count are exact, and at
  \<open>2 ^ 53\<close> an increment is rounded away.
\<close>

lemma count_saturates:
  "number_plus (Fin 9007199254740992) (Fin 1) = Fin 9007199254740992"
proof -
  have e: "binary_exponent 9007199254740993 = 53"
    by (rule binary_exponent_eq) (simp_all add: pow2_def)
  have r: "round_half_even (9007199254740993 / 2) = 4503599627370496"
    by (simp add: round_half_even_def Let_def)
  show ?thesis
    by (simp add: binary64_def e r pow2_def)
qed

lemma count_increment:
  "n < 2 ^ 53 \<Longrightarrow> number_plus (Fin (real n)) (Fin 1) = Fin (real (Suc n))"
  using binary64_of_nat [of "Suc n"] by (simp add: add.commute)

lemma count_unchanged:
  "n \<le> 2 ^ 53 \<Longrightarrow> number_plus (Fin (real n)) (Fin 0) = Fin (real n)"
  using binary64_of_nat [of n] by simp

section \<open>Sum and Avg\<close>

lemma Avg_update_Null:
  assumes "n \<le> 2 ^ 53"
  shows "Avg_update \<lparr>count = Num (Fin (real n)), sum' = t, value' = u\<rparr> Null =
     \<lparr>count = Num (Fin (real n)), sum' = t, value' = u\<rparr>"
  using count_unchanged [OF assms] by (simp add: Avg_update_def Sum_update_def)

lemma Avg_update_first:
  assumes "n < 2 ^ 53"
  shows "Avg_update \<lparr>count = Num (Fin (real n)), sum' = Null, value' = u\<rparr> (Num x) =
     \<lparr>count = Num (Fin (real (Suc n))), sum' = Num x, value' = u\<rparr>"
  using count_increment [OF assms]
  by (simp add: Avg_update_def Sum_update_def loosely_null_def)

lemma Avg_update_next:
  assumes "n < 2 ^ 53"
  shows "Avg_update \<lparr>count = Num (Fin (real n)), sum' = Num t, value' = u\<rparr> (Num x) =
     \<lparr>count = Num (Fin (real (Suc n))), sum' = Num (number_plus t x), value' = u\<rparr>"
  using count_increment [OF assms]
  by (simp add: Avg_update_def Sum_update_def loosely_null_def)

text \<open>
  Once a number has been seen, the state holds the running sum, each value added in
  turn, and the count.
\<close>

lemma Avg_update_fold_number:
  assumes "n + length (non_null vs) \<le> 2 ^ 53"
  shows "foldl Avg_update \<lparr>count = Num (Fin (real n)), sum' = Num t, value' = u\<rparr>
       (map (or_null Num) vs) =
     \<lparr>count = Num (Fin (real (n + length (non_null vs)))),
      sum' = Num (foldl number_plus t (non_null vs)), value' = u\<rparr>"
  using assms
proof (induction vs arbitrary: n t)
  case Nil
  show ?case by simp
next
  case (Cons v vs)
  show ?case
  proof (cases v)
    case None
    with Cons.prems have "n \<le> 2 ^ 53" "n + length (non_null vs) \<le> 2 ^ 53" by simp_all
    with None Cons.IH [of n t] show ?thesis
      by (simp add: or_null_simps Avg_update_Null)
  next
    case (Some x)
    with Cons.prems have "n < 2 ^ 53" "Suc n + length (non_null vs) \<le> 2 ^ 53" by simp_all
    with Some Cons.IH [of "Suc n" "number_plus t x"] show ?thesis
      by (simp add: or_null_simps Avg_update_next)
  qed
qed

lemma Avg_initialize_record:
  "Avg_initialize = \<lparr>count = Num (Fin (real 0)), sum' = Null, value' = Undefined\<rparr>"
  by (simp add: Avg_initialize_def Sum_initialize_def Aggr_initialize_def)

lemma Avg_update_fold:
  assumes "length (non_null vs) \<le> 2 ^ 53"
  shows "foldl Avg_update Avg_initialize (map (or_null Num) vs) =
     \<lparr>count = Num (Fin (real (length (non_null vs)))),
      sum' = (case non_null vs of [] \<Rightarrow> Null | x # xs \<Rightarrow> Num (foldl number_plus x xs)),
      value' = Undefined\<rparr>"
  using assms
proof (induction vs)
  case Nil
  show ?case by (simp add: Avg_initialize_record)
next
  case (Cons v vs)
  show ?case
  proof (cases v)
    case None
    have "Avg_update Avg_initialize Null = Avg_initialize"
      unfolding Avg_initialize_record by (rule Avg_update_Null) simp
    with None Cons show ?thesis by (simp add: or_null_simps)
  next
    case (Some x)
    have "Avg_update Avg_initialize (Num x) =
        \<lparr>count = Num (Fin (real (Suc 0))), sum' = Num x, value' = Undefined\<rparr>"
      unfolding Avg_initialize_record by (rule Avg_update_first) simp
    moreover from Some Cons.prems have "Suc 0 + length (non_null vs) \<le> 2 ^ 53" by simp
    ultimately show ?thesis
      using Some Avg_update_fold_number [of "Suc 0" vs x Undefined]
      by (simp add: or_null_simps)
  qed
qed

text \<open>
  C4, as amended. For every sequence \<open>vs\<close> of number-or-null values, with at most
  \<open>2 ^ 53\<close> non-null values, applied to a fresh \<open>Avg\<close> state: \<open>finalize\<close> returns
  null when no value is non-null, and otherwise the running sum, which is the
  non-null values added one after the other in update order with every addition
  rounded, divided with rounding by the count of the non-null values. The count
  that the state holds is that count, so the divisor is not zero.
\<close>

theorem Avg_finalize_running_sum:
  assumes "length (non_null vs) \<le> 2 ^ 53"
  shows "fst (Avg_finalize (foldl Avg_update Avg_initialize (map (or_null Num) vs))) =
     (case non_null vs of
        [] \<Rightarrow> Null
      | x # xs \<Rightarrow>
          Num (number_div (foldl number_plus x xs) (Fin (real (length (x # xs))))))
   \<and> count (foldl Avg_update Avg_initialize (map (or_null Num) vs)) =
       Num (Fin (real (length (non_null vs))))"
  by (simp add: Avg_update_fold [OF assms] Avg_finalize_def Sum_finalize_def is_zero_def
      split: list.splits)

text \<open>The arithmetic of the examples.\<close>

lemma binary64_zero: "binary64 0 = Fin 0"
  by (simp add: binary64_def)

lemma binary64_six: "binary64 6 = Fin 6"
  using binary64_of_int [of 6] by simp

lemma binary64_three: "binary64 3 = Fin 3"
  using binary64_of_int [of 3] by simp

lemma six_by_two: "number_div (number_plus (Fin 2) (Fin 4)) (Fin 2) = Fin 3"
  by (simp add: binary64_six number_div_def is_zero_def is_inf_def binary64_three)

lemma cancelling_sum:
  "number_plus (number_plus (Fin 10000000000000000) (Fin 1)) (Fin (- 10000000000000000)) = Fin 0"
  by (simp add: binary64_rounds binary64_zero)

lemma zero_by_three: "number_div (Fin 0) (Fin 3) = Fin 0"
  by (simp add: number_div_def is_zero_def is_inf_def signed_zero_def)

text \<open>\<open>[2, null, 4]\<close> finalizes to 3, and a sequence with no number to null.\<close>

theorem Avg_finalize_running_sum_witness:
  "fst (Avg_finalize (foldl Avg_update Avg_initialize [Num (Fin 2), Null, Num (Fin 4)])) =
     Num (Fin 3)
   \<and> fst (Avg_finalize (foldl Avg_update Avg_initialize [Null, Null])) = Null
   \<and> fst (Avg_finalize Avg_initialize) = Null"
proof -
  have small: "length (non_null [Some (Fin 2), None, Some (Fin 4)]) \<le> 2 ^ 53"
    "length (non_null [None, None :: number option]) \<le> 2 ^ 53"
    "length (non_null ([] :: number option list)) \<le> 2 ^ 53"
    by simp_all
  have q: "number_div (number_plus (Fin 2) (Fin 4)) (Fin (real (length [Fin 2, Fin 4]))) = Fin 3"
    using six_by_two by simp
  from Avg_finalize_running_sum [OF small(1)] q
  have "fst (Avg_finalize (foldl Avg_update Avg_initialize [Num (Fin 2), Null, Num (Fin 4)])) =
     Num (Fin 3)"
    by (simp add: or_null_simps del: number_plus.simps)
  moreover from Avg_finalize_running_sum [OF small(2)]
  have "fst (Avg_finalize (foldl Avg_update Avg_initialize [Null, Null])) = Null"
    by (simp add: or_null_simps)
  moreover from Avg_finalize_running_sum [OF small(3)]
  have "fst (Avg_finalize Avg_initialize) = Null"
    by simp
  ultimately show ?thesis by simp
qed

text \<open>
  C4 as it is stated, with the sum and the quotient of the real numbers, fails.
  Over \<open>[10 ^ 16, 1, - 10 ^ 16]\<close> the first addition rounds \<open>10 ^ 16 + 1\<close> to
  \<open>10 ^ 16\<close>, the running sum ends at 0 and \<open>finalize\<close> returns 0, where the sum
  of the three values is 1 and their mean a third.
\<close>

theorem Avg_finalize_counterexample:
  "fst (Avg_finalize (foldl Avg_update Avg_initialize
      [Num (Fin 10000000000000000), Num (Fin 1), Num (Fin (- 10000000000000000))])) =
     Num (Fin 0)
   \<and> (10000000000000000 + 1 + - 10000000000000000) / 3 = (1 / 3 :: real)"
proof -
  let ?vs = "[Some (Fin 10000000000000000), Some (Fin 1), Some (Fin (- 10000000000000000))]"
  have small: "length (non_null ?vs) \<le> 2 ^ 53" by simp
  have "foldl Avg_update Avg_initialize (map (or_null Num) ?vs) =
      \<lparr>count = Num (Fin 3), sum' = Num (Fin 0), value' = Undefined\<rparr>"
    unfolding Avg_update_fold [OF small] using cancelling_sum by (simp del: number_plus.simps)
  then have "fst (Avg_finalize (foldl Avg_update Avg_initialize (map (or_null Num) ?vs))) =
      Num (Fin 0)"
    by (simp add: Avg_finalize_def Sum_finalize_def is_zero_def zero_by_three)
  then show ?thesis by (simp add: or_null_simps)
qed

section \<open>ValueAggr and its subclasses\<close>

text \<open>
  The subclasses inherit \<open>initialize\<close> and \<open>finalize\<close> from \<open>ValueAggr\<close>. Over
  values of one kind (numbers, strings) on which the selector is the operation \<open>g\<close>,
  the state holds the left fold of \<open>g\<close> over the non-null values seen.
\<close>

lemma ValueAggr_update_fold_value:
  assumes emb: "\<And>x. emb x \<noteq> Null"
    and sel: "\<And>a b. selector (emb a) (emb b) = emb (g a b)"
  shows "foldl (ValueAggr_update selector) (s\<lparr>value' := emb a\<rparr>) (map (or_null emb) vs) =
     s\<lparr>value' := emb (foldl g a (non_null vs))\<rparr>"
proof (induction vs arbitrary: a)
  case Nil
  show ?case by simp
next
  case (Cons v vs)
  show ?case
  proof (cases v)
    case None
    then show ?thesis
      using Cons [of a] by (simp add: or_null_simps ValueAggr_update_def Aggr_update_def)
  next
    case (Some x)
    then show ?thesis
      using Cons [of "g a x"] emb [of a] emb [of x] sel [of a x]
      by (simp add: or_null_simps ValueAggr_update_def Aggr_update_def)
  qed
qed

lemma ValueAggr_update_fold:
  assumes emb: "\<And>x. emb x \<noteq> Null"
    and sel: "\<And>a b. selector (emb a) (emb b) = emb (g a b)"
  shows "foldl (ValueAggr_update selector) ValueAggr_initialize (map (or_null emb) vs) =
     Aggr_initialize\<lparr>value' :=
       (case non_null vs of [] \<Rightarrow> Null | x # xs \<Rightarrow> emb (foldl g x xs))\<rparr>"
proof (induction vs)
  case Nil
  show ?case by (simp add: ValueAggr_initialize_def)
next
  case (Cons v vs)
  show ?case
  proof (cases v)
    case None
    have "ValueAggr_update selector ValueAggr_initialize Null = ValueAggr_initialize"
      by (simp add: ValueAggr_update_def Aggr_update_def)
    with None Cons show ?thesis by (simp add: or_null_simps)
  next
    case (Some x)
    have "ValueAggr_update selector ValueAggr_initialize (emb x) =
        Aggr_initialize\<lparr>value' := emb x\<rparr>"
      using emb [of x]
      by (simp add: ValueAggr_update_def Aggr_update_def ValueAggr_initialize_def)
    with Some show ?thesis
      using ValueAggr_update_fold_value [where emb = emb and selector = selector and g = g
          and s = Aggr_initialize and a = x and vs = vs, OF emb sel]
      by (simp add: or_null_simps)
  qed
qed

text \<open>
  Away from \<open>NaN\<close> the comparison of numbers is a strict order in which two
  numbers of which neither is less than the other are equal as numbers.
\<close>

lemma number_lt_irrefl: "\<not> number_lt a a"
  by (cases a) simp_all

lemma number_lt_asym: "number_lt a b \<Longrightarrow> \<not> number_lt b a"
  by (cases a; cases b) simp_all

lemma number_lt_not_trans:
  "b \<noteq> NaN \<Longrightarrow> \<not> number_lt a b \<Longrightarrow> \<not> number_lt b c \<Longrightarrow> \<not> number_lt a c"
  by (cases a; cases b; cases c) simp_all

text \<open>
  The fold of the selector of \<open>Min\<close> from \<open>r\<close> ends at a value that it has seen and
  that no value it has seen is less than; likewise for \<open>Max\<close>.
\<close>

lemma foldl_min_least:
  assumes "r \<noteq> NaN" and "NaN \<notin> set xs"
  shows "foldl (\<lambda>a b. if number_lt a b then a else b) r xs \<in> set (r # xs)
    \<and> (\<forall>y\<in>set (r # xs). \<not> number_lt y (foldl (\<lambda>a b. if number_lt a b then a else b) r xs))"
  using assms
proof (induction xs arbitrary: r)
  case Nil
  show ?case by (simp add: number_lt_irrefl)
next
  case (Cons b xs)
  let ?g = "\<lambda>a b. if number_lt a b then a else b"
  let ?r1 = "?g r b"
  let ?m = "foldl ?g ?r1 xs"
  from Cons.prems have r1: "?r1 \<noteq> NaN" and xs: "NaN \<notin> set xs" by auto
  from Cons.IH [OF r1 xs]
  have mem: "?m \<in> set (?r1 # xs)" and least: "\<forall>y\<in>set (?r1 # xs). \<not> number_lt y ?m"
    by simp_all
  from least have r1m: "\<not> number_lt ?r1 ?m" by simp
  have rr: "\<not> number_lt r ?r1" by (simp add: number_lt_irrefl)
  have br: "\<not> number_lt b ?r1" by (auto simp add: number_lt_irrefl dest: number_lt_asym)
  have "\<not> number_lt r ?m" by (rule number_lt_not_trans [OF r1 rr r1m])
  moreover have "\<not> number_lt b ?m" by (rule number_lt_not_trans [OF r1 br r1m])
  moreover from least have "\<forall>y\<in>set xs. \<not> number_lt y ?m" by simp
  moreover from mem have "?m \<in> set (r # b # xs)" by (auto split: if_splits)
  ultimately show ?case by simp
qed

lemma foldl_max_greatest:
  assumes "r \<noteq> NaN" and "NaN \<notin> set xs"
  shows "foldl (\<lambda>a b. if number_lt b a then a else b) r xs \<in> set (r # xs)
    \<and> (\<forall>y\<in>set (r # xs). \<not> number_lt (foldl (\<lambda>a b. if number_lt b a then a else b) r xs) y)"
  using assms
proof (induction xs arbitrary: r)
  case Nil
  show ?case by (simp add: number_lt_irrefl)
next
  case (Cons b xs)
  let ?g = "\<lambda>a b. if number_lt b a then a else b"
  let ?r1 = "?g r b"
  let ?m = "foldl ?g ?r1 xs"
  from Cons.prems have r1: "?r1 \<noteq> NaN" and xs: "NaN \<notin> set xs" by auto
  from Cons.IH [OF r1 xs]
  have mem: "?m \<in> set (?r1 # xs)" and greatest: "\<forall>y\<in>set (?r1 # xs). \<not> number_lt ?m y"
    by simp_all
  from greatest have mr1: "\<not> number_lt ?m ?r1" by simp
  have rr: "\<not> number_lt ?r1 r" by (simp add: number_lt_irrefl)
  have rb: "\<not> number_lt ?r1 b" by (auto simp add: number_lt_irrefl dest: number_lt_asym)
  have "\<not> number_lt ?m r" by (rule number_lt_not_trans [OF r1 mr1 rr])
  moreover have "\<not> number_lt ?m b" by (rule number_lt_not_trans [OF r1 mr1 rb])
  moreover from greatest have "\<forall>y\<in>set xs. \<not> number_lt ?m y" by simp
  moreover from mem have "?m \<in> set (r # b # xs)" by (auto split: if_splits)
  ultimately show ?case by simp
qed

lemma foldl_first: "foldl (\<lambda>a b. a) x xs = x"
  by (induction xs) simp_all

lemma foldl_last: "foldl (\<lambda>a b. b) x xs = last (x # xs)"
  by (induction xs arbitrary: x) simp_all

lemma Min_update_fold:
  "foldl Min_update ValueAggr_initialize (map (or_null Num) vs) =
     Aggr_initialize\<lparr>value' :=
       (case non_null vs of [] \<Rightarrow> Null
        | x # xs \<Rightarrow> Num (foldl (\<lambda>a b. if number_lt a b then a else b) x xs))\<rparr>"
proof -
  have NN: "\<And>x. Num x \<noteq> Null" by simp
  have sel: "\<And>a b. Min_selector (Num a) (Num b) = Num (if number_lt a b then a else b)"
    by (simp add: Min_selector_def)
  show ?thesis
    unfolding Min_update_def
    by (rule ValueAggr_update_fold [where emb = Num and selector = Min_selector
        and g = "\<lambda>a b. if number_lt a b then a else b", OF NN sel])
qed

lemma Max_update_fold:
  "foldl Max_update ValueAggr_initialize (map (or_null Num) vs) =
     Aggr_initialize\<lparr>value' :=
       (case non_null vs of [] \<Rightarrow> Null
        | x # xs \<Rightarrow> Num (foldl (\<lambda>a b. if number_lt b a then a else b) x xs))\<rparr>"
proof -
  have NN: "\<And>x. Num x \<noteq> Null" by simp
  have sel: "\<And>a b. Max_selector (Num a) (Num b) = Num (if number_lt b a then a else b)"
    by (simp add: Max_selector_def)
  show ?thesis
    unfolding Max_update_def
    by (rule ValueAggr_update_fold [where emb = Num and selector = Max_selector
        and g = "\<lambda>a b. if number_lt b a then a else b", OF NN sel])
qed

lemma First_update_fold:
  "foldl First_update ValueAggr_initialize (map (or_null Num) vs) =
     Aggr_initialize\<lparr>value' := (case non_null vs of [] \<Rightarrow> Null | x # xs \<Rightarrow> Num x)\<rparr>"
proof -
  have NN: "\<And>x. Num x \<noteq> Null" by simp
  have sel: "\<And>a b. First_selector (Num a) (Num b) = Num a"
    by (simp add: First_selector_def)
  show ?thesis
    unfolding First_update_def
      ValueAggr_update_fold [where emb = Num and selector = First_selector
        and g = "\<lambda>a b. a", OF NN sel]
    by (cases "non_null vs") (simp_all add: foldl_first)
qed

lemma Last_update_fold:
  "foldl Last_update ValueAggr_initialize (map (or_null Num) vs) =
     Aggr_initialize\<lparr>value' :=
       (case non_null vs of [] \<Rightarrow> Null | x # xs \<Rightarrow> Num (last (x # xs)))\<rparr>"
proof -
  have NN: "\<And>x. Num x \<noteq> Null" by simp
  have sel: "\<And>a b. Last_selector (Num a) (Num b) = Num b"
    by (simp add: Last_selector_def)
  show ?thesis
    unfolding Last_update_def
      ValueAggr_update_fold [where emb = Num and selector = Last_selector
        and g = "\<lambda>a b. b", OF NN sel]
    by (cases "non_null vs") (simp_all add: foldl_last)
qed

text \<open>
  C6, as amended. For every sequence \<open>vs\<close> of number-or-null values applied to a
  fresh state: when no value is non-null, \<open>Min\<close>, \<open>Max\<close>, \<open>First\<close> and \<open>Last\<close>
  finalize to null. Otherwise \<open>First\<close> finalizes to the first non-null value in
  update order and \<open>Last\<close> to the last; and when no value is \<open>NaN\<close>, \<open>Min\<close>
  finalizes to a smallest non-null value, one of the values that none of them is
  less than, and \<open>Max\<close> to a largest one.
\<close>

theorem ValueAggr_subclasses_select:
  "(non_null vs = [] \<longrightarrow>
      fst (ValueAggr_finalize (foldl Min_update ValueAggr_initialize (map (or_null Num) vs))) = Null
    \<and> fst (ValueAggr_finalize (foldl Max_update ValueAggr_initialize (map (or_null Num) vs))) = Null)
   \<and> (non_null vs \<noteq> [] \<longrightarrow> NaN \<notin> set (non_null vs) \<longrightarrow>
      (\<exists>r. fst (ValueAggr_finalize (foldl Min_update ValueAggr_initialize (map (or_null Num) vs))) = Num r
         \<and> r \<in> set (non_null vs) \<and> (\<forall>x\<in>set (non_null vs). \<not> number_lt x r))
    \<and> (\<exists>r. fst (ValueAggr_finalize (foldl Max_update ValueAggr_initialize (map (or_null Num) vs))) = Num r
         \<and> r \<in> set (non_null vs) \<and> (\<forall>x\<in>set (non_null vs). \<not> number_lt r x)))
   \<and> fst (ValueAggr_finalize (foldl First_update ValueAggr_initialize (map (or_null Num) vs))) =
       (if non_null vs = [] then Null else Num (hd (non_null vs)))
   \<and> fst (ValueAggr_finalize (foldl Last_update ValueAggr_initialize (map (or_null Num) vs))) =
       (if non_null vs = [] then Null else Num (last (non_null vs)))"
proof (intro conjI impI)
  show "fst (ValueAggr_finalize (foldl First_update ValueAggr_initialize (map (or_null Num) vs))) =
       (if non_null vs = [] then Null else Num (hd (non_null vs)))"
    unfolding First_update_fold by (simp add: ValueAggr_finalize_def split: list.splits)
  show "fst (ValueAggr_finalize (foldl Last_update ValueAggr_initialize (map (or_null Num) vs))) =
       (if non_null vs = [] then Null else Num (last (non_null vs)))"
    unfolding Last_update_fold by (simp add: ValueAggr_finalize_def split: list.splits)
next
  assume "non_null vs = []"
  then show "fst (ValueAggr_finalize (foldl Min_update ValueAggr_initialize (map (or_null Num) vs))) = Null"
    unfolding Min_update_fold by (simp add: ValueAggr_finalize_def)
next
  assume "non_null vs = []"
  then show "fst (ValueAggr_finalize (foldl Max_update ValueAggr_initialize (map (or_null Num) vs))) = Null"
    unfolding Max_update_fold by (simp add: ValueAggr_finalize_def)
next
  assume "non_null vs \<noteq> []" and nan: "NaN \<notin> set (non_null vs)"
  then obtain x xs where xs: "non_null vs = x # xs" by (cases "non_null vs") auto
  with nan have "x \<noteq> NaN" "NaN \<notin> set xs" by auto
  from foldl_min_least [OF this]
  show "\<exists>r. fst (ValueAggr_finalize (foldl Min_update ValueAggr_initialize (map (or_null Num) vs))) = Num r
         \<and> r \<in> set (non_null vs) \<and> (\<forall>x\<in>set (non_null vs). \<not> number_lt x r)"
    unfolding Min_update_fold xs by (simp add: ValueAggr_finalize_def)
next
  assume "non_null vs \<noteq> []" and nan: "NaN \<notin> set (non_null vs)"
  then obtain x xs where xs: "non_null vs = x # xs" by (cases "non_null vs") auto
  with nan have "x \<noteq> NaN" "NaN \<notin> set xs" by auto
  from foldl_max_greatest [OF this]
  show "\<exists>r. fst (ValueAggr_finalize (foldl Max_update ValueAggr_initialize (map (or_null Num) vs))) = Num r
         \<and> r \<in> set (non_null vs) \<and> (\<forall>x\<in>set (non_null vs). \<not> number_lt r x)"
    unfolding Max_update_fold xs by (simp add: ValueAggr_finalize_def)
qed

text \<open>\<open>[5, null, 2, 8]\<close>: \<open>Min\<close> finalizes to 2 and \<open>Max\<close> to 8.\<close>

theorem ValueAggr_subclasses_select_witness:
  "fst (ValueAggr_finalize (foldl Min_update ValueAggr_initialize
      [Num (Fin 5), Null, Num (Fin 2), Num (Fin 8)])) = Num (Fin 2)
   \<and> fst (ValueAggr_finalize (foldl Max_update ValueAggr_initialize
      [Num (Fin 5), Null, Num (Fin 2), Num (Fin 8)])) = Num (Fin 8)
   \<and> fst (ValueAggr_finalize (foldl First_update ValueAggr_initialize
      [Num (Fin 5), Null, Num (Fin 2), Num (Fin 8)])) = Num (Fin 5)
   \<and> fst (ValueAggr_finalize (foldl Last_update ValueAggr_initialize
      [Num (Fin 5), Null, Num (Fin 2), Num (Fin 8)])) = Num (Fin 8)
   \<and> fst (ValueAggr_finalize (foldl Min_update ValueAggr_initialize [Null, Null])) = Null
   \<and> fst (ValueAggr_finalize (foldl Max_update ValueAggr_initialize [Null, Null])) = Null"
proof -
  let ?vs = "[Some (Fin 5), None, Some (Fin 2), Some (Fin 8)]"
  have vs: "non_null ?vs \<noteq> []" "NaN \<notin> set (non_null ?vs)" by simp_all
  have none: "non_null [None, None :: number option] = []" by simp
  note t = ValueAggr_subclasses_select [of ?vs]
  note n = ValueAggr_subclasses_select [of "[None, None]"]
  from t vs obtain r
    where r: "fst (ValueAggr_finalize (foldl Min_update ValueAggr_initialize
        (map (or_null Num) ?vs))) = Num r"
      and "r \<in> set (non_null ?vs)" and "\<forall>x\<in>set (non_null ?vs). \<not> number_lt x r"
    by blast
  then have "r = Fin 2" by auto
  with r have mn: "fst (ValueAggr_finalize (foldl Min_update ValueAggr_initialize
      (map (or_null Num) ?vs))) = Num (Fin 2)"
    by simp
  from t vs obtain s
    where s: "fst (ValueAggr_finalize (foldl Max_update ValueAggr_initialize
        (map (or_null Num) ?vs))) = Num s"
      and "s \<in> set (non_null ?vs)" and "\<forall>x\<in>set (non_null ?vs). \<not> number_lt s x"
    by blast
  then have "s = Fin 8" by auto
  with s have mx: "fst (ValueAggr_finalize (foldl Max_update ValueAggr_initialize
      (map (or_null Num) ?vs))) = Num (Fin 8)"
    by simp
  from t have fl: "fst (ValueAggr_finalize (foldl First_update ValueAggr_initialize
      (map (or_null Num) ?vs))) = Num (Fin 5)"
    "fst (ValueAggr_finalize (foldl Last_update ValueAggr_initialize
      (map (or_null Num) ?vs))) = Num (Fin 8)"
    by simp_all
  from n none have nl: "fst (ValueAggr_finalize (foldl Min_update ValueAggr_initialize
      (map (or_null Num) [None, None]))) = Null"
    "fst (ValueAggr_finalize (foldl Max_update ValueAggr_initialize
      (map (or_null Num) [None, None]))) = Null"
    by blast+
  from mn mx fl nl show ?thesis by (simp add: or_null_simps)
qed

text \<open>
  C6 as it is stated fails for \<open>Min\<close> and \<open>Max\<close> on \<open>NaN\<close>, with which every
  comparison is false: over \<open>[1, NaN]\<close> both finalize to \<open>NaN\<close> and over
  \<open>[NaN, 1]\<close> both finalize to 1, so the result is not determined by the values of
  the sequence, as a smallest or a largest value would be.
\<close>

theorem ValueAggr_subclasses_counterexample:
  "fst (ValueAggr_finalize (foldl Min_update ValueAggr_initialize [Num (Fin 1), Num NaN])) = Num NaN
   \<and> fst (ValueAggr_finalize (foldl Min_update ValueAggr_initialize [Num NaN, Num (Fin 1)])) =
       Num (Fin 1)
   \<and> fst (ValueAggr_finalize (foldl Max_update ValueAggr_initialize [Num (Fin 1), Num NaN])) = Num NaN
   \<and> fst (ValueAggr_finalize (foldl Max_update ValueAggr_initialize [Num NaN, Num (Fin 1)])) =
       Num (Fin 1)"
  using Min_update_fold [of "[Some (Fin 1), Some NaN]"] Min_update_fold [of "[Some NaN, Some (Fin 1)]"]
    Max_update_fold [of "[Some (Fin 1), Some NaN]"] Max_update_fold [of "[Some NaN, Some (Fin 1)]"]
  by (simp add: or_null_simps ValueAggr_finalize_def)

section \<open>StringAgg\<close>

lemma StringAgg_sep_constant:
  "StringAgg_sep [a, ConstExpr (Str s)] = Str (if s = [] then '','' else s)"
  by (simp add: StringAgg_sep_def js_or_def)

lemma StringAgg_sep_default: "StringAgg_sep [a] = Str '',''"
  by (simp add: StringAgg_sep_def js_or_def)

lemma join_append_head: "join sep ((a @ b) # ys) = a @ join sep (b # ys)"
  by (cases ys) simp_all

lemma foldl_join: "foldl (\<lambda>a b. a @ sep @ b) x xs = join sep (x # xs)"
proof (induction xs arbitrary: x)
  case Nil
  show ?case by simp
next
  case (Cons y ys)
  have "join sep ((x @ sep @ y) # ys) = x @ sep @ join sep (y # ys)"
    using join_append_head [of sep x "sep @ y" ys] join_append_head [of sep sep y ys]
    by (cases ys) simp_all
  with Cons [of "x @ sep @ y"] show ?case by simp
qed

text \<open>
  With the separator that the constructor arrives at, \<open>finalize\<close> returns the
  non-null strings joined by it in update order, and null when there is none.
\<close>

lemma StringAgg_joins:
  assumes "StringAgg_sep args = Str sep"
  shows "fst (ValueAggr_finalize
            (foldl (StringAgg_update args) ValueAggr_initialize (map (or_null Str) vs))) =
         (if non_null vs = [] then Null else Str (join sep (non_null vs)))"
proof -
  have NN: "\<And>x. Str x \<noteq> Null" by simp
  have sel: "\<And>a b. StringAgg_selector (Str sep) (Str a) (Str b) = Str (a @ sep @ b)"
    by (simp add: StringAgg_selector_def)
  show ?thesis
    unfolding StringAgg_update_def assms
      ValueAggr_update_fold [where emb = Str and selector = "StringAgg_selector (Str sep)"
        and g = "\<lambda>a b. a @ sep @ b", OF NN sel]
    by (simp add: ValueAggr_finalize_def foldl_join split: list.splits)
qed

text \<open>
  The constructor arrives at the given separator when it is a non-empty string, and
  at the comma when there is no second argument. The examples of the specification:
  \<open>a,b,c\<close> with the default separator, \<open>a-b-c\<close> with \<open>-\<close>, a null adding nothing.
\<close>

lemma StringAgg_joins_nonempty:
  assumes "sep \<noteq> []"
  shows "fst (ValueAggr_finalize
            (foldl (StringAgg_update [a, ConstExpr (Str sep)]) ValueAggr_initialize
               (map (or_null Str) vs))) =
         (if non_null vs = [] then Null else Str (join sep (non_null vs)))"
  using assms by (intro StringAgg_joins) (simp add: StringAgg_sep_constant)

lemma StringAgg_joins_default:
  "fst (ValueAggr_finalize
     (foldl (StringAgg_update [a]) ValueAggr_initialize (map (or_null Str) vs))) =
   (if non_null vs = [] then Null else Str (join '','' (non_null vs)))"
  by (intro StringAgg_joins) (simp add: StringAgg_sep_default)

lemma StringAgg_examples:
  "fst (ValueAggr_finalize
     (foldl (StringAgg_update [RefExpr ''s'']) ValueAggr_initialize
        [Str ''a'', Str ''b'', Str ''c''])) = Str ''a,b,c''
   \<and> fst (ValueAggr_finalize
     (foldl (StringAgg_update [RefExpr ''s'', ConstExpr (Str ''-'')]) ValueAggr_initialize
        [Str ''a'', Null, Str ''b'', Str ''c''])) = Str ''a-b-c''"
  using StringAgg_joins_default [of "RefExpr ''s''" "[Some ''a'', Some ''b'', Some ''c'']"]
    StringAgg_joins_nonempty [of "''-''" "RefExpr ''s''" "[Some ''a'', None, Some ''b'', Some ''c'']"]
  by (simp add: or_null_simps)

text \<open>
  C3. The claim is that for every string \<open>sep\<close> given as the constant of the second
  constructor argument, \<open>finalize\<close> returns the non-null values joined by \<open>sep\<close>.
  The empty string is such a separator, and joining \<open>a\<close> and \<open>b\<close> by it gives
  \<open>ab\<close>. The constructor takes \<open>arg2.constant || ','\<close>, in which the empty string
  is falsy, so the code joins by the comma instead.
\<close>

theorem StringAgg_empty_separator_joins_by_comma:
  "fst (ValueAggr_finalize
     (foldl (StringAgg_update [RefExpr ''s'', ConstExpr (Str '''')]) ValueAggr_initialize
        [Str ''a'', Str ''b''])) = Str ''a,b''
   \<and> join '''' [''a'', ''b''] = ''ab''"
  using StringAgg_joins [of "[RefExpr ''s'', ConstExpr (Str '''')]" "'',''" "[Some ''a'', Some ''b'']"]
  by (simp add: StringAgg_sep_constant or_null_simps)

section \<open>ArrayAgg\<close>

lemma ArrayAgg_update_fold_array:
  "foldl ArrayAgg_update (s\<lparr>value' := Arr xs\<rparr>) vs = s\<lparr>value' := Arr (xs @ vs)\<rparr>"
proof (induction vs arbitrary: xs)
  case Nil
  show ?case by simp
next
  case (Cons v vs)
  have "ArrayAgg_update (s\<lparr>value' := Arr xs\<rparr>) v = s\<lparr>value' := Arr (xs @ [v])\<rparr>"
    by (simp add: ArrayAgg_update_def loosely_null_def)
  with Cons [where xs = "xs @ [v]"] show ?case by simp
qed

text \<open>
  C7. For every sequence \<open>vs\<close> of values applied to a fresh \<open>ArrayAgg\<close> state,
  \<open>finalize\<close> returns the list of all of them in update order, nulls included, and
  null when \<open>update\<close> was never called.
\<close>

theorem ArrayAgg_finalize_collects:
  "fst (ArrayAgg_finalize (foldl ArrayAgg_update ArrayAgg_initialize vs)) =
     (if vs = [] then Null else Arr vs)"
proof (cases vs)
  case Nil
  then show ?thesis by (simp add: ArrayAgg_finalize_def ArrayAgg_initialize_def)
next
  case (Cons v ws)
  have "ArrayAgg_update ArrayAgg_initialize v = Aggr_initialize\<lparr>value' := Arr [v]\<rparr>"
    by (simp add: ArrayAgg_update_def ArrayAgg_initialize_def loosely_null_def)
  with Cons show ?thesis
    using ArrayAgg_update_fold_array [where s = Aggr_initialize and xs = "[v]" and vs = ws]
    by (simp add: ArrayAgg_finalize_def)
qed

theorem ArrayAgg_finalize_collects_witness:
  "fst (ArrayAgg_finalize (foldl ArrayAgg_update ArrayAgg_initialize [Num (Fin 1), Null, Num (Fin 2)])) =
     Arr [Num (Fin 1), Null, Num (Fin 2)]
   \<and> fst (ArrayAgg_finalize ArrayAgg_initialize) = Null"
  using ArrayAgg_finalize_collects [of "[Num (Fin 1), Null, Num (Fin 2)]"] ArrayAgg_finalize_collects [of "[]"]
  by simp

section \<open>finalize\<close>

text \<open>
  C9. For each of the ten aggregates and every state reached from \<open>initialize\<close> by
  a sequence \<open>vs\<close> of updates, \<open>finalize\<close> leaves the state as it is, and a second
  \<open>finalize\<close> returns the result of the first.
\<close>

theorem finalize_twice:
  "finalize_leaves_state CountStar_finalize
     (foldl (\<lambda>state v. CountStar_update state) CountStar_initialize vs)
   \<and> finalize_leaves_state Count_finalize (foldl Count_update Count_initialize vs)
   \<and> finalize_leaves_state Sum_finalize (foldl Sum_update Sum_initialize vs)
   \<and> finalize_leaves_state Avg_finalize (foldl Avg_update Avg_initialize vs)
   \<and> finalize_leaves_state ValueAggr_finalize (foldl Min_update ValueAggr_initialize vs)
   \<and> finalize_leaves_state ValueAggr_finalize (foldl Max_update ValueAggr_initialize vs)
   \<and> finalize_leaves_state ValueAggr_finalize (foldl First_update ValueAggr_initialize vs)
   \<and> finalize_leaves_state ValueAggr_finalize (foldl Last_update ValueAggr_initialize vs)
   \<and> finalize_leaves_state ValueAggr_finalize
        (foldl (StringAgg_update args) ValueAggr_initialize vs)
   \<and> finalize_leaves_state ArrayAgg_finalize (foldl ArrayAgg_update ArrayAgg_initialize vs)"
  by (simp add: finalize_leaves_state_def CountStar_finalize_def Count_finalize_def
      Sum_finalize_def Avg_finalize_def ValueAggr_finalize_def ArrayAgg_finalize_def)

theorem finalize_twice_witness:
  "finalize_leaves_state Avg_finalize (foldl Avg_update Avg_initialize [Num (Fin 2), Null, Num (Fin 4)])
   \<and> finalize_leaves_state ArrayAgg_finalize
        (foldl ArrayAgg_update ArrayAgg_initialize [Num (Fin 2), Null, Num (Fin 4)])
   \<and> finalize_leaves_state CountStar_finalize CountStar_initialize"
  using finalize_twice [of "[Num (Fin 2), Null, Num (Fin 4)]" "[]"] finalize_twice [of "[]" "[]"]
  by simp

end
